theory Spec2Isabelle
  imports Main "HOL-Library.AList" "HOL-Library.Sublist" "HOL-Library.Multiset"
begin

section \<open>JavaScript values and documents\<close>

text \<open>
  The fragment of JavaScript values that \<open>search-collection.js\<close> handles: documents are
  objects, their fields are read and written by name, and keys are built with \<open>+\<close>.
  An object is the list of its own properties in insertion order.
\<close>

datatype jsval =
    Undefined
  | Null
  | Bool bool
  | Num int
  | NaN
  | Str string
  | Obj "(string \<times> jsval) list"

type_synonym doc = "(string \<times> jsval) list"

text \<open>Reading a property (\<open>doc.k\<close>): a missing property reads as \<open>undefined\<close>.\<close>

definition get_field :: "doc \<Rightarrow> string \<Rightarrow> jsval" where
  "get_field d k = (case map_of d k of None \<Rightarrow> Undefined | Some v \<Rightarrow> v)"

text \<open>Writing a property (\<open>doc[k] = v\<close>): an existing one keeps its place, a new one is last.\<close>

definition set_field :: "string \<Rightarrow> jsval \<Rightarrow> doc \<Rightarrow> doc" where
  "set_field k v d = AList.update k v d"

text \<open>\<open>delete doc.k\<close>.\<close>

definition delete_field :: "string \<Rightarrow> doc \<Rightarrow> doc" where
  "delete_field k d = AList.delete k d"

text \<open>Truthiness, as \<open>if (v)\<close>, \<open>v && e\<close> and \<open>v || e\<close> read it.\<close>

fun truthy :: "jsval \<Rightarrow> bool" where
  "truthy Undefined = False"
| "truthy Null = False"
| "truthy (Bool b) = b"
| "truthy (Num n) = (n \<noteq> 0)"
| "truthy NaN = False"
| "truthy (Str s) = (s \<noteq> [])"
| "truthy (Obj _) = True"

definition js_or :: "jsval \<Rightarrow> jsval \<Rightarrow> jsval" where
  "js_or a b = (if truthy a then a else b)"

text \<open>Decimal digits of a natural number, for the string form of a number.\<close>

fun digits :: "nat \<Rightarrow> string" where
  "digits n =
     (if n < 10 then [''0123456789'' ! n]
      else digits (n div 10) @ [''0123456789'' ! (n mod 10)])"

declare digits.simps [simp del]

text \<open>\<open>ToString\<close>, as string concatenation and template literals apply it.\<close>

fun to_str :: "jsval \<Rightarrow> string" where
  "to_str Undefined = ''undefined''"
| "to_str Null = ''null''"
| "to_str (Bool b) = (if b then ''true'' else ''false'')"
| "to_str (Num n) = (if n < 0 then ''-'' @ digits (nat (- n)) else digits (nat n))"
| "to_str NaN = ''NaN''"
| "to_str (Str s) = s"
| "to_str (Obj _) = ''[object Object]''"

text \<open>\<open>ToNumber\<close> of the primitive values; \<open>None\<close> is \<open>NaN\<close>.\<close>

fun to_num :: "jsval \<Rightarrow> int option" where
  "to_num Undefined = None"
| "to_num Null = Some 0"
| "to_num (Bool b) = Some (if b then 1 else 0)"
| "to_num (Num n) = Some n"
| "to_num _ = None"

text \<open>
  A string, or an object (whose primitive value is the string \<open>[object Object]\<close>), makes
  \<open>+\<close> a concatenation.
\<close>

fun is_text :: "jsval \<Rightarrow> bool" where
  "is_text (Str _) = True"
| "is_text (Obj _) = True"
| "is_text _ = False"

text \<open>The operator \<open>a + b\<close>.\<close>

definition js_add :: "jsval \<Rightarrow> jsval \<Rightarrow> jsval" where
  "js_add a b =
     (if is_text a \<or> is_text b then Str (to_str a @ to_str b)
      else (case (to_num a, to_num b) of
              (Some x, Some y) \<Rightarrow> Num (x + y)
            | _ \<Rightarrow> NaN))"

text \<open>\<open>_.isNumber\<close>: a number value, \<open>NaN\<close> included.\<close>

fun isNumber :: "jsval \<Rightarrow> bool" where
  "isNumber (Num _) = True"
| "isNumber NaN = True"
| "isNumber _ = False"

text \<open>\<open>Match.OneOf(String, Object)\<close> and \<open>Object\<close> of Meteor's \<open>check\<close>.\<close>

fun match_String_or_Object :: "jsval \<Rightarrow> bool" where
  "match_String_or_Object (Str _) = True"
| "match_String_or_Object (Obj _) = True"
| "match_String_or_Object _ = False"

fun match_Object :: "jsval \<Rightarrow> bool" where
  "match_Object (Obj _) = True"
| "match_Object _ = False"

text \<open>Property access on a value that was checked to be an object.\<close>

fun fields_of :: "jsval \<Rightarrow> doc" where
  "fields_of (Obj kvs) = kvs"
| "fields_of _ = []"

section \<open>Document identities\<close>

text \<open>
  \<open>generateId(doc)\<close>: \<open>doc._id + doc.__searchDefinition + doc.__searchOptions\<close>.
\<close>

definition generateId :: "doc \<Rightarrow> jsval" where
  "generateId d =
     js_add (js_add (get_field d ''_id'') (get_field d ''__searchDefinition''))
            (get_field d ''__searchOptions'')"

text \<open>
  \<open>addCustomFields(doc, data)\<close>: every entry \<open>key: val\<close> of \<open>data\<close>, in order, is written
  to \<open>doc['__' + key]\<close>.
\<close>

definition addCustomFields :: "doc \<Rightarrow> doc \<Rightarrow> doc" where
  "addCustomFields d data = fold (\<lambda>(key, val) acc. set_field (''__'' @ key) val acc) data d"

section \<open>The collaborators\<close>

text \<open>
  What the publication reads from the cursor that \<open>engine.search\<close> returns. The cursor
  is an object of the engine, so each read sees its state at the moment of the read:
  \<open>cursor_count\<close> is what \<open>cursor.count()\<close> returns, \<open>mongoCursor_count\<close> what
  \<open>cursor.mongoCursor.count()\<close> returns, \<open>aggs_ref\<close> the property \<open>cursor._aggs\<close>
  (\<open>None\<close> when it is absent, else the address of the aggregation object),
  \<open>objects\<close> the contents of the objects by address, and \<open>mongoCursor_docs\<close> the ordered
  result that \<open>cursor.mongoCursor.observe\<close> delivers first.
\<close>

record cursor_state =
  cursor_count :: int
  mongoCursor_count :: int
  aggs_ref :: "nat option"
  objects :: "nat \<Rightarrow> jsval"
  mongoCursor_docs :: "doc list"

text \<open>
  The index configuration: its name, the \<open>permission\<close> hook, the two refresh intervals
  and \<open>collection.findOne\<close> of the indexed collection.
\<close>

record index_configuration =
  name :: jsval
  permission :: "doc \<Rightarrow> bool"
  countUpdateIntervalMs :: jsval
  aggsUpdateIntervalMs :: jsval
  collection_findOne :: "jsval \<Rightarrow> doc option"

text \<open>
  The reactive engine: \<open>config.indexName\<close>, the hooks \<open>config.transform\<close> and
  \<open>config.beforePublish\<close> (the event kind, the document, the positional arguments),
  \<open>checkSearchParam\<close> (\<open>False\<close> when it throws) and \<open>search\<close>.
\<close>

record reactive_engine =
  indexName :: jsval
  transform :: "doc \<Rightarrow> doc"
  beforePublish :: "string \<Rightarrow> doc \<Rightarrow> jsval list \<Rightarrow> doc"
  checkSearchParam :: "jsval \<Rightarrow> index_configuration \<Rightarrow> bool"
  search :: "jsval \<Rightarrow> doc \<Rightarrow> index_configuration \<Rightarrow> cursor_state"

datatype error =
    Match_Error
  | Not_Allowed
  | Search_Param_Error
  | Type_Error
  | Find_Only_On_Client

section \<open>The search collection\<close>

record search_collection =
  indexConfiguration :: index_configuration
  engine :: reactive_engine
  mongoCount :: bool
  collection_name :: string

text \<open>
  The constructor: the name is \<open>indexConfiguration.name\<close>, a slash and the engine's index
  name, or \<open>easySearch\<close> when the engine has none.
\<close>

definition SearchCollection ::
  "index_configuration \<Rightarrow> reactive_engine \<Rightarrow> bool \<Rightarrow> error + search_collection" where
  "SearchCollection cfg eng mc =
     (case name cfg of
        Str _ \<Rightarrow> Inr \<lparr> indexConfiguration = cfg, engine = eng, mongoCount = mc,
                       collection_name =
                         (if truthy (indexName eng)
                          then to_str (name cfg) @ ''/'' @ to_str (indexName eng)
                          else to_str (name cfg) @ ''/easySearch'') \<rparr>
      | Null \<Rightarrow> Inr \<lparr> indexConfiguration = cfg, engine = eng, mongoCount = mc,
                      collection_name =
                        (if truthy (indexName eng)
                         then to_str (name cfg) @ ''/'' @ to_str (indexName eng)
                         else to_str (name cfg) @ ''/easySearch'') \<rparr>
      | _ \<Rightarrow> Inl Match_Error)"

section \<open>The publication\<close>

text \<open>
  The messages of a subscription's channel (collection name, id, fields), the two
  interval callbacks, the two stop callbacks in the order \<open>_setUpPublication\<close> registers
  them, and everything a subscription does that can be seen from outside.
\<close>

datatype message =
    Added string jsval doc
  | Changed string jsval doc
  | Removed string jsval
  | Ready

datatype timer_callback = CountRefresh | AggsRefresh

datatype stop_callback = ClearTimersAndObserver | StopObserver

datatype effect =
    Sent message
  | CheckSearchParam
  | Search
  | CursorCount
  | MongoCursorCount
  | SetInterval nat timer_callback jsval
  | ClearInterval nat
  | Observe
  | HandleStop
  | Uncaught error

text \<open>
  One subscription: the variables the publish handler's closures share (\<open>scope\<close> is
  \<open>this\<close>, the publication context, as the list of its properties), and the state Meteor
  keeps for it: whether it is deactivated, its stop callbacks, the running intervals by
  handle, the next handle \<open>Meteor.setInterval\<close> returns, whether the observer still
  delivers, and the effects so far, oldest first. A handle is an object, so a variable
  that holds one is truthy: \<open>intervalID\<close> and \<open>intervalAggsID\<close> are \<open>None\<close> while
  undefined, and \<open>resultsHandle\<close> is true once \<open>observe\<close> has returned its handle.
\<close>

record session =
  collectionScope :: search_collection
  scope :: doc
  definitionString :: jsval
  optionsString :: jsval
  aggs :: "nat option"
  intervalID :: "nat option"
  intervalAggsID :: "nat option"
  resultsHandle :: bool
  deactivated :: bool
  stopCallbacks :: "stop_callback list"
  timers :: "(nat \<times> timer_callback) list"
  next_timer :: nat
  observing :: bool
  effects :: "effect list"

definition sent :: "session \<Rightarrow> message list" where
  "sent s = [m. Sent m \<leftarrow> effects s]"

definition note_effect :: "effect \<Rightarrow> session \<Rightarrow> session" where
  "note_effect e s = s\<lparr>effects := effects s @ [e]\<rparr>"

text \<open>
  \<open>this.added\<close>, \<open>this.changed\<close>, \<open>this.removed\<close> and \<open>this.ready\<close>: Meteor drops the
  call when the subscription is deactivated.
\<close>

definition emit :: "message \<Rightarrow> session \<Rightarrow> session" where
  "emit m s = (if deactivated s then s else note_effect (Sent m) s)"

text \<open>\<open>Meteor.setInterval\<close> (the handle it returns is \<open>next_timer\<close>) and \<open>Meteor.clearInterval\<close>.\<close>

definition setInterval :: "timer_callback \<Rightarrow> jsval \<Rightarrow> session \<Rightarrow> session" where
  "setInterval cb ms s =
     note_effect (SetInterval (next_timer s) cb ms)
       (s\<lparr>timers := timers s @ [(next_timer s, cb)], next_timer := Suc (next_timer s)\<rparr>)"

definition clearInterval :: "nat \<Rightarrow> session \<Rightarrow> session" where
  "clearInterval h s =
     note_effect (ClearInterval h) (s\<lparr>timers := filter (\<lambda>t. fst t \<noteq> h) (timers s)\<rparr>)"

subsection \<open>The interval callbacks\<close>

text \<open>
  The count refresh (lines 197 to 210). It is an arrow function of the publish handler,
  so its \<open>this\<close> is the publication context: the flag it reads is the property
  \<open>mongoCount\<close> of \<open>scope\<close>, not the field \<open>mongoCount\<close> of the search collection.
  \<open>cursor.count\<close> is a method of the cursor (line 191 has called it), so
  \<open>cursor.count && cursor.count() || 0\<close> is \<open>cursor.count() || 0\<close>.
\<close>

definition count_refresh :: "cursor_state \<Rightarrow> session \<Rightarrow> session" where
  "count_refresh cur s =
     (if truthy (get_field (scope s) ''mongoCount'')
      then emit (Changed (collection_name (collectionScope s))
                   (js_add (Str ''searchCount'') (definitionString s))
                   [(''count'', Num (mongoCursor_count cur))])
             (note_effect MongoCursorCount s)
      else emit (Changed (collection_name (collectionScope s))
                   (js_add (Str ''searchCount'') (definitionString s))
                   [(''count'', js_or (Num (cursor_count cur)) (Num 0))])
             (note_effect CursorCount s))"

text \<open>
  The aggregation refresh (lines 225 to 229) sends the constant \<open>aggs\<close> of the handler:
  the object that \<open>cursor._aggs\<close> referred to when the handler ran, with the contents it
  has when the message is sent.
\<close>

definition aggs_refresh :: "cursor_state \<Rightarrow> session \<Rightarrow> session" where
  "aggs_refresh cur s =
     emit (Changed (collection_name (collectionScope s))
             (js_add (Str ''aggs'') (definitionString s))
             [(''aggs'', (case aggs s of None \<Rightarrow> Undefined | Some a \<Rightarrow> objects cur a))])
       s"

text \<open>An interval fires: its callback runs if the interval has not been cleared.\<close>

definition fire :: "nat \<Rightarrow> cursor_state \<Rightarrow> session \<Rightarrow> session" where
  "fire h cur s =
     (case map_of (timers s) h of
        None \<Rightarrow> s
      | Some CountRefresh \<Rightarrow> count_refresh cur s
      | Some AggsRefresh \<Rightarrow> aggs_refresh cur s)"

subsection \<open>The observer callbacks\<close>

text \<open>
  Each callback first shapes the document (\<open>beforePublish\<close>, then \<open>addCustomFields\<close>),
  then sends it under the key \<open>generateId\<close> gives the shaped document. The search
  collection, \<open>definitionString\<close> and \<open>optionsString\<close> are those of the handler.
\<close>

definition addedAt_doc ::
  "search_collection \<Rightarrow> jsval \<Rightarrow> jsval \<Rightarrow> doc \<Rightarrow> nat \<Rightarrow> jsval \<Rightarrow> doc" where
  "addedAt_doc c defStr optStr d atIndex beforeId =
     (let d1 = beforePublish (engine c) ''addedAt'' d [Num (int atIndex), beforeId]
      in addCustomFields d1
           [(''searchDefinition'', defStr),
            (''searchOptions'', optStr),
            (''sortPosition'', Num (int atIndex)),
            (''originalId'', get_field d1 ''_id'')])"

definition addedAt :: "doc \<Rightarrow> nat \<Rightarrow> jsval \<Rightarrow> session \<Rightarrow> session" where
  "addedAt d atIndex beforeId s =
     (let d2 = addedAt_doc (collectionScope s) (definitionString s) (optionsString s)
                 d atIndex beforeId
      in emit (Added (collection_name (collectionScope s)) (generateId d2) d2) s)"

definition changedAt_doc ::
  "search_collection \<Rightarrow> jsval \<Rightarrow> jsval \<Rightarrow> doc \<Rightarrow> doc \<Rightarrow> nat \<Rightarrow> doc" where
  "changedAt_doc c defStr optStr d oldDoc atIndex =
     (let d1 = beforePublish (engine c) ''changedAt'' d [Obj oldDoc, Num (int atIndex)]
      in addCustomFields d1
           [(''searchDefinition'', defStr),
            (''searchOptions'', optStr),
            (''sortPosition'', Num (int atIndex)),
            (''originalId'', get_field d1 ''_id'')])"

definition changedAt :: "doc \<Rightarrow> doc \<Rightarrow> nat \<Rightarrow> session \<Rightarrow> session" where
  "changedAt d oldDoc atIndex s =
     (let d2 = changedAt_doc (collectionScope s) (definitionString s) (optionsString s)
                 d oldDoc atIndex
      in emit (Changed (collection_name (collectionScope s)) (generateId d2) d2) s)"

text \<open>
  \<open>movedTo\<close> (lines 263 to 283): the moved document is stamped with \<open>toIndex\<close>; the
  document that \<open>collection.findOne(before)\<close> finds, if any, is stamped with \<open>fromIndex\<close>
  and sent first.
\<close>

definition movedTo_doc ::
  "search_collection \<Rightarrow> jsval \<Rightarrow> jsval \<Rightarrow> doc \<Rightarrow> nat \<Rightarrow> nat \<Rightarrow> jsval \<Rightarrow> doc" where
  "movedTo_doc c defStr optStr d fromIndex toIndex beforeId =
     (let d1 = beforePublish (engine c) ''movedTo'' d
                 [Num (int fromIndex), Num (int toIndex), beforeId]
      in addCustomFields d1
           [(''searchDefinition'', defStr),
            (''searchOptions'', optStr),
            (''sortPosition'', Num (int toIndex))])"

definition movedTo_beforeDoc :: "jsval \<Rightarrow> jsval \<Rightarrow> doc \<Rightarrow> nat \<Rightarrow> doc" where
  "movedTo_beforeDoc defStr optStr beforeDoc fromIndex =
     addCustomFields beforeDoc
       [(''searchDefinition'', defStr),
        (''searchOptions'', optStr),
        (''sortPosition'', Num (int fromIndex))]"

definition movedTo :: "doc \<Rightarrow> nat \<Rightarrow> nat \<Rightarrow> jsval \<Rightarrow> session \<Rightarrow> session" where
  "movedTo d fromIndex toIndex beforeId s =
     (let d2 = movedTo_doc (collectionScope s) (definitionString s) (optionsString s)
                 d fromIndex toIndex beforeId;
          s1 = (case collection_findOne (indexConfiguration (collectionScope s)) beforeId of
                  None \<Rightarrow> s
                | Some beforeDoc \<Rightarrow>
                    (let b = movedTo_beforeDoc (definitionString s) (optionsString s)
                               beforeDoc fromIndex
                     in emit (Changed (collection_name (collectionScope s)) (generateId b) b) s))
      in emit (Changed (collection_name (collectionScope s)) (generateId d2) d2) s1)"

definition removedAt_doc ::
  "search_collection \<Rightarrow> jsval \<Rightarrow> jsval \<Rightarrow> doc \<Rightarrow> nat \<Rightarrow> doc" where
  "removedAt_doc c defStr optStr d atIndex =
     (let d1 = beforePublish (engine c) ''removedAt'' d [Num (int atIndex)]
      in addCustomFields d1
           [(''searchDefinition'', defStr),
            (''searchOptions'', optStr)])"

definition removedAt :: "doc \<Rightarrow> nat \<Rightarrow> session \<Rightarrow> session" where
  "removedAt d atIndex s =
     (let d2 = removedAt_doc (collectionScope s) (definitionString s) (optionsString s)
                 d atIndex
      in emit (Removed (collection_name (collectionScope s)) (generateId d2)) s)"

text \<open>
  The diff events of the observed cursor. The observer calls back only until its handle
  is stopped.
\<close>

datatype diff_event =
    AddedAt doc nat jsval
  | ChangedAt doc doc nat
  | MovedTo doc nat nat jsval
  | RemovedAt doc nat

fun callback :: "diff_event \<Rightarrow> session \<Rightarrow> session" where
  "callback (AddedAt d atIndex beforeId) s = addedAt d atIndex beforeId s"
| "callback (ChangedAt d oldDoc atIndex) s = changedAt d oldDoc atIndex s"
| "callback (MovedTo d fromIndex toIndex beforeId) s = movedTo d fromIndex toIndex beforeId s"
| "callback (RemovedAt d atIndex) s = removedAt d atIndex s"

definition deliver :: "diff_event \<Rightarrow> session \<Rightarrow> session" where
  "deliver e s = (if observing s then callback e s else s)"

subsection \<open>Stopping\<close>

text \<open>\<open>resultsHandle.stop()\<close>.\<close>

definition handle_stop :: "session \<Rightarrow> session" where
  "handle_stop s = note_effect HandleStop (s\<lparr>observing := False\<rparr>)"

text \<open>
  The two callbacks given to \<open>this.onStop\<close> (lines 234 to 238 and 291 to 293). An
  exception of a stop callback is caught and logged by Meteor.
\<close>

fun run_stop_callback :: "stop_callback \<Rightarrow> session \<Rightarrow> session" where
  "run_stop_callback ClearTimersAndObserver s =
     (let s1 = (case intervalID s of None \<Rightarrow> s | Some h \<Rightarrow> clearInterval h s);
          s2 = (case intervalAggsID s1 of None \<Rightarrow> s1 | Some h \<Rightarrow> clearInterval h s1)
      in if resultsHandle s2 then handle_stop s2 else s2)"
| "run_stop_callback StopObserver s =
     (if resultsHandle s then handle_stop s else note_effect (Uncaught Type_Error) s)"

text \<open>
  \<open>this.onStop\<close>: the callback is kept for the stop, or runs at once when the
  subscription is already deactivated.
\<close>

definition onStop :: "stop_callback \<Rightarrow> session \<Rightarrow> session" where
  "onStop cb s =
     (if deactivated s then run_stop_callback cb s
      else s\<lparr>stopCallbacks := stopCallbacks s @ [cb]\<rparr>)"

text \<open>
  The subscription stops (\<open>stop()\<close> of its handle, or its connection closes): Meteor
  deactivates it once and runs its stop callbacks in the order of their registration.
\<close>

definition stop :: "session \<Rightarrow> session" where
  "stop s =
     (if deactivated s then s
      else fold run_stop_callback (stopCallbacks s) (s\<lparr>deactivated := True\<rparr>))"

subsection \<open>The publish handler\<close>

text \<open>
  The handler of \<open>Meteor.publish\<close> in \<open>_setUpPublication\<close>, statement by statement. The
  session when \<open>engine.search\<close> has returned (line 189): nothing sent, no interval, no
  handle.
\<close>

definition new_session :: "search_collection \<Rightarrow> doc \<Rightarrow> jsval \<Rightarrow> jsval \<Rightarrow> session" where
  "new_session c this defStr optStr =
     \<lparr> collectionScope = c, scope = this, definitionString = defStr, optionsString = optStr,
       aggs = None, intervalID = None, intervalAggsID = None, resultsHandle = False,
       deactivated = False, stopCallbacks = [], timers = [], next_timer = 0,
       observing = False, effects = [CheckSearchParam, Search] \<rparr>"

text \<open>Lines 191 to 193: the count record.\<close>

definition push_count :: "cursor_state \<Rightarrow> session \<Rightarrow> session" where
  "push_count cur s =
     emit (Added (collection_name (collectionScope s))
             (js_add (Str ''searchCount'') (definitionString s))
             [(''count'', Num (cursor_count cur))])
       (note_effect CursorCount s)"

text \<open>Lines 195 to 213: the count refresh interval, its handle kept in \<open>intervalID\<close>.\<close>

definition start_count_refresh :: "session \<Rightarrow> session" where
  "start_count_refresh s =
     (if truthy (countUpdateIntervalMs (indexConfiguration (collectionScope s)))
      then (setInterval CountRefresh
              (countUpdateIntervalMs (indexConfiguration (collectionScope s))) s)
             \<lparr>intervalID := Some (next_timer s)\<rparr>
      else s)"

text \<open>Lines 215 to 219: the aggregation record, when the cursor has aggregations.\<close>

definition push_aggs :: "cursor_state \<Rightarrow> session \<Rightarrow> session" where
  "push_aggs cur s =
     (case aggs_ref cur of
        None \<Rightarrow> s
      | Some a \<Rightarrow>
          emit (Added (collection_name (collectionScope s))
                  (js_add (Str ''aggs'') (definitionString s))
                  [(''aggs'', objects cur a)])
            (s\<lparr>aggs := Some a\<rparr>))"

text \<open>
  Lines 221 to 232: the aggregation refresh interval. The handle is assigned to
  \<open>intervalID\<close>, as line 224 does; \<open>intervalAggsID\<close> is declared and never assigned.
\<close>

definition start_aggs_refresh :: "session \<Rightarrow> session" where
  "start_aggs_refresh s =
     (if aggs s \<noteq> None \<and> truthy (aggsUpdateIntervalMs (indexConfiguration (collectionScope s)))
      then (setInterval AggsRefresh
              (aggsUpdateIntervalMs (indexConfiguration (collectionScope s))) s)
             \<lparr>intervalID := Some (next_timer s)\<rparr>
      else s)"

text \<open>
  Lines 240 to 289: \<open>cursor.mongoCursor.observe\<close> calls \<open>addedAt\<close> for every document of
  the current result, in order and each at the end (\<open>before\<close> is \<open>null\<close>), before it
  returns the handle.
\<close>

definition initial_adds :: "doc list \<Rightarrow> session \<Rightarrow> session" where
  "initial_adds ds s = fold (\<lambda>(i, d) acc. addedAt d i Null acc) (enumerate 0 ds) s"

definition observe :: "cursor_state \<Rightarrow> session \<Rightarrow> session" where
  "observe cur s =
     (initial_adds (mongoCursor_docs cur) (note_effect Observe (s\<lparr>observing := True\<rparr>)))
       \<lparr>resultsHandle := True\<rparr>"

text \<open>Lines 191 to 295, after the search.\<close>

definition set_up :: "cursor_state \<Rightarrow> session \<Rightarrow> session" where
  "set_up cur s =
     emit Ready
       (onStop StopObserver
         (observe cur
           (onStop ClearTimersAndObserver
             (start_aggs_refresh
               (push_aggs cur
                 (start_count_refresh
                   (push_count cur s)))))))"

text \<open>
  Line 177 and 178: the options the permission hook and the engine receive carry the
  user id and the publication context.
\<close>

definition handler_options :: "doc \<Rightarrow> jsval \<Rightarrow> doc" where
  "handler_options this options =
     set_field ''publicationScope'' (Obj this)
       (set_field ''userId'' (get_field this ''userId'') (fields_of options))"

text \<open>
  The handler. \<open>stringify\<close> is \<open>JSON.stringify\<close>, \<open>this\<close> the publication context. A throw
  is \<open>Inl\<close> of the error and the effects up to it.
\<close>

definition publish ::
  "(jsval \<Rightarrow> jsval) \<Rightarrow> search_collection \<Rightarrow> doc \<Rightarrow> jsval \<Rightarrow> jsval
     \<Rightarrow> (error \<times> effect list) + session" where
  "publish stringify c this searchDefinition options =
     (if \<not> match_String_or_Object searchDefinition then Inl (Match_Error, [])
      else if \<not> match_Object options then Inl (Match_Error, [])
      else
        (let defStr = stringify searchDefinition;
             optStr = stringify (get_field (fields_of options) ''props'');
             opts = handler_options this options
         in if \<not> permission (indexConfiguration c) opts then Inl (Not_Allowed, [])
            else if \<not> checkSearchParam (engine c) searchDefinition (indexConfiguration c)
              then Inl (Search_Param_Error, [CheckSearchParam])
            else Inr (set_up (search (engine c) searchDefinition opts (indexConfiguration c))
                        (new_session c this defStr optStr))))"

subsection \<open>The life of a subscription\<close>

text \<open>
  What happens to a subscription after the handler has returned: an interval fires (the
  cursor is read in the state it has then), the observer reports a diff event, or the
  subscription stops.
\<close>

datatype event =
    Fires nat cursor_state
  | Diff diff_event
  | Stop

fun step :: "event \<Rightarrow> session \<Rightarrow> session" where
  "step (Fires h cur) s = fire h cur s"
| "step (Diff e) s = deliver e s"
| "step Stop s = stop s"

definition run :: "event list \<Rightarrow> session \<Rightarrow> session" where
  "run es s = fold step es s"

section \<open>The client\<close>

text \<open>
  The cursor that \<open>find\<close> returns: the documents of its mongo cursor as \<open>fetch\<close> yields
  them, the count, whether it is reactive, and whether it holds the publish handle.
\<close>

record client_cursor =
  documents :: "doc list"
  count_value :: jsval
  reactive :: bool
  publishHandle :: bool

text \<open>
  \<open>_getCount\<close>: \<open>_collection\<close> is the client's mirror of the published collection, and
  \<open>findOne\<close> with a string selects by \<open>_id\<close>.
\<close>

definition getCount :: "(jsval \<Rightarrow> jsval) \<Rightarrow> doc list \<Rightarrow> jsval \<Rightarrow> jsval" where
  "getCount stringify collection searchDefinition =
     (case find (\<lambda>d. get_field d ''_id'' = js_add (Str ''searchCount'') (stringify searchDefinition))
             collection of
        None \<Rightarrow> Undefined
      | Some countDoc \<Rightarrow> get_field countDoc ''count'')"

text \<open>
  \<open>_getMongoCursor\<close>: the documents of the mirror with the definition and options of the
  search, sorted by \<open>__sortPosition\<close>, each passed through the transform of line 121.
  Positions are numbers on every document the publication sends; another value sorts as 0.
\<close>

definition sortPosition :: "doc \<Rightarrow> int" where
  "sortPosition d = (case get_field d ''__sortPosition'' of Num n \<Rightarrow> n | _ \<Rightarrow> 0)"

definition selected :: "(jsval \<Rightarrow> jsval) \<Rightarrow> jsval \<Rightarrow> doc \<Rightarrow> doc \<Rightarrow> bool" where
  "selected stringify searchDefinition options d =
     (get_field d ''__searchDefinition'' = stringify searchDefinition \<and>
      get_field d ''__searchOptions'' = stringify (get_field options ''props''))"

definition client_transform :: "reactive_engine \<Rightarrow> doc \<Rightarrow> doc" where
  "client_transform eng d =
     transform eng
       (delete_field ''__sortPosition''
         (delete_field ''__searchOptions''
           (delete_field ''__searchDefinition'' d)))"

definition getMongoCursor ::
  "(jsval \<Rightarrow> jsval) \<Rightarrow> search_collection \<Rightarrow> doc list \<Rightarrow> jsval \<Rightarrow> doc \<Rightarrow> doc list" where
  "getMongoCursor stringify c collection searchDefinition options =
     map (client_transform (engine c))
       (sort_key sortPosition (filter (selected stringify searchDefinition options) collection))"

text \<open>\<open>find\<close> (\<open>isClient\<close> is \<open>Meteor.isClient\<close>).\<close>

definition find_documents ::
  "(jsval \<Rightarrow> jsval) \<Rightarrow> bool \<Rightarrow> search_collection \<Rightarrow> doc list \<Rightarrow> jsval \<Rightarrow> doc
     \<Rightarrow> error + client_cursor" where
  "find_documents stringify isClient c collection searchDefinition options =
     (if \<not> isClient then Inl Find_Only_On_Client
      else
        (let count = getCount stringify collection searchDefinition;
             mongoCursor = getMongoCursor stringify c collection searchDefinition options
         in if \<not> isNumber count
            then Inr \<lparr> documents = mongoCursor, count_value = Num 0, reactive = False,
                       publishHandle = False \<rparr>
            else Inr \<lparr> documents = mongoCursor, count_value = count, reactive = True,
                       publishHandle = True \<rparr>))"

section \<open>A concrete installation\<close>

text \<open>
  Every function above takes \<open>JSON.stringify\<close>, the configuration and the engine as
  parameters. The examples below fix them: \<open>JSON.stringify\<close> on the values of this
  fragment (strings of printable characters, so the double quote and the backslash are
  the only characters to escape; a property whose value is \<open>undefined\<close> is left out), an
  index named \<open>players\<close> that only a logged-in user may search, with both refresh intervals
  set, and an engine whose search finds the documents \<open>A\<close> and \<open>B\<close> and one aggregation
  object.
\<close>

definition quote :: "string \<Rightarrow> string" where
  "quote s =
     [CHR 0x22]
     @ concat (map (\<lambda>c. if c = CHR 0x22 \<or> c = CHR 0x5C then [CHR 0x5C, c] else [c]) s)
     @ [CHR 0x22]"

fun commas :: "string list \<Rightarrow> string" where
  "commas [] = []"
| "commas [x] = x"
| "commas (x # y # ys) = x @ '','' @ commas (y # ys)"

fun JSON_stringify :: "jsval \<Rightarrow> jsval" where
  "JSON_stringify Undefined = Undefined"
| "JSON_stringify Null = Str ''null''"
| "JSON_stringify (Bool b) = Str (to_str (Bool b))"
| "JSON_stringify (Num n) = Str (to_str (Num n))"
| "JSON_stringify NaN = Str ''null''"
| "JSON_stringify (Str s) = Str (quote s)"
| "JSON_stringify (Obj kvs) =
     Str (''{''
          @ commas (concat (map (\<lambda>(k, v). case JSON_stringify v of
                                              Str t \<Rightarrow> [quote k @ '':'' @ t]
                                            | _ \<Rightarrow> []) kvs))
          @ ''}'')"

definition players :: "doc list" where
  "players = [[(''_id'', Str ''A''), (''score'', Num 9)], [(''_id'', Str ''B''), (''score'', Num 7)]]"

definition example_configuration :: index_configuration where
  "example_configuration =
     \<lparr> name = Str ''players'',
       permission = (\<lambda>options. truthy (get_field options ''userId'')),
       countUpdateIntervalMs = Num 1000,
       aggsUpdateIntervalMs = Num 5000,
       collection_findOne = (\<lambda>selector. find (\<lambda>d. get_field d ''_id'' = selector) players) \<rparr>"

definition example_cursor :: cursor_state where
  "example_cursor =
     \<lparr> cursor_count = 2,
       mongoCursor_count = 5,
       aggs_ref = Some 0,
       objects = (\<lambda>a. if a = 0 then Obj [(''teams'', Num 3)] else Undefined),
       mongoCursor_docs = players \<rparr>"

definition example_engine :: reactive_engine where
  "example_engine =
     \<lparr> indexName = Undefined,
       transform = (\<lambda>d. d),
       beforePublish = (\<lambda>kind d args. d),
       checkSearchParam = (\<lambda>searchDefinition cfg. True),
       search = (\<lambda>searchDefinition options cfg. example_cursor) \<rparr>"

text \<open>The search collection the constructor builds from them, for either counting flag.\<close>

definition example_collection :: "bool \<Rightarrow> search_collection" where
  "example_collection mc =
     \<lparr> indexConfiguration = example_configuration, engine = example_engine,
       mongoCount = mc, collection_name = ''players/easySearch'' \<rparr>"

text \<open>The publication context of a logged-in user, and one search with its options.\<close>

definition example_scope :: doc where
  "example_scope = [(''userId'', Str ''u1'')]"

definition example_options :: jsval where
  "example_options = Obj [(''limit'', Num 10), (''props'', Obj [])]"

text \<open>
  The session of the search for \<open>a\<close> by that user: what the handler builds once the
  search has returned.
\<close>

definition example_session :: "bool \<Rightarrow> session" where
  "example_session mc =
     set_up example_cursor
       (new_session (example_collection mc) example_scope (Str (quote ''a'')) (Str ''{}''))"

text \<open>
  A second search for \<open>a\<close>, with other options; and the cursor at a later moment, when
  the engine has put a new aggregation object in \<open>cursor._aggs\<close>.
\<close>

definition example_options_red :: jsval where
  "example_options_red = Obj [(''props'', Obj [(''team'', Str ''red'')])]"

definition example_session_red :: "bool \<Rightarrow> session" where
  "example_session_red mc =
     set_up example_cursor
       (new_session (example_collection mc) example_scope (Str (quote ''a''))
          (Str (''{'' @ quote ''team'' @ '':'' @ quote ''red'' @ ''}'')))"

definition example_cursor_later :: cursor_state where
  "example_cursor_later =
     example_cursor
       \<lparr> aggs_ref := Some 1,
         objects := (\<lambda>a. if a = 0 then Obj [(''teams'', Num 3)] else Obj [(''teams'', Num 4)]) \<rparr>"

text \<open>
  The client's mirror of the published collection while the search for \<open>a\<close> and an older
  search for \<open>c\<close> are subscribed, in the order the documents arrived.
\<close>

definition example_mirror :: "doc list" where
  "example_mirror =
     [[(''_id'', Str (''B'' @ quote ''a'' @ ''{}'')), (''score'', Num 7),
       (''__searchDefinition'', Str (quote ''a'')), (''__searchOptions'', Str ''{}''),
       (''__sortPosition'', Num 1), (''__originalId'', Str ''B'')],
      [(''_id'', Str (''searchCount'' @ quote ''a'')), (''count'', Num 2)],
      [(''_id'', Str (''C'' @ quote ''c'' @ ''{}'')), (''score'', Num 5),
       (''__searchDefinition'', Str (quote ''c'')), (''__searchOptions'', Str ''{}''),
       (''__sortPosition'', Num 0), (''__originalId'', Str ''C'')],
      [(''_id'', Str (''A'' @ quote ''a'' @ ''{}'')), (''score'', Num 9),
       (''__searchDefinition'', Str (quote ''a'')), (''__searchOptions'', Str ''{}''),
       (''__sortPosition'', Num 0), (''__originalId'', Str ''A'')]]"

section \<open>Basic facts\<close>

lemmas closure_fields =
  note_effect_def emit_def setInterval_def clearInterval_def handle_stop_def

lemmas handler_stages =
  new_session_def push_count_def start_count_refresh_def push_aggs_def
  start_aggs_refresh_def onStop_def observe_def set_up_def

lemmas example_defs =
  example_collection_def example_configuration_def example_engine_def example_cursor_def
  example_scope_def example_options_def players_def

lemma get_field_set_field:
  "get_field (set_field k v d) k' = (if k' = k then v else get_field d k')"
  by (simp add: get_field_def set_field_def update_conv')

lemma get_field_Nil: "get_field [] k = Undefined"
  by (simp add: get_field_def)

lemma get_field_Cons: "get_field ((k, v) # d) k' = (if k' = k then v else get_field d k')"
  by (simp add: get_field_def)

lemmas get_field_simps = get_field_set_field get_field_Cons get_field_Nil

lemma get_field_addCustomFields3:
  "get_field (addCustomFields d [(k1, v1), (k2, v2), (k3, v3)]) k =
     (if k = ''__'' @ k3 then v3 else if k = ''__'' @ k2 then v2
      else if k = ''__'' @ k1 then v1 else get_field d k)"
  by (simp add: addCustomFields_def get_field_set_field)

lemma example_constructed:
  "SearchCollection example_configuration example_engine mc = Inr (example_collection mc)"
  by (simp add: SearchCollection_def example_defs)

lemma example_publish:
  "publish JSON_stringify (example_collection mc) example_scope (Str ''a'') example_options
     = Inr (example_session mc)"
  by (simp add: publish_def example_session_def example_defs handler_options_def
        get_field_def set_field_def)

lemma example_session_eq:
  "example_session mc =
     \<lparr> collectionScope = example_collection mc, scope = example_scope,
       definitionString = Str (quote ''a''), optionsString = Str ''{}'',
       aggs = Some 0, intervalID = Some 1, intervalAggsID = None, resultsHandle = True,
       deactivated = False, stopCallbacks = [ClearTimersAndObserver, StopObserver],
       timers = [(0, CountRefresh), (1, AggsRefresh)], next_timer = 2, observing = True,
       effects =
         [CheckSearchParam, Search, CursorCount,
          Sent (Added ''players/easySearch'' (Str (''searchCount'' @ quote ''a''))
                  [(''count'', Num 2)]),
          SetInterval 0 CountRefresh (Num 1000),
          Sent (Added ''players/easySearch'' (Str (''aggs'' @ quote ''a''))
                  [(''aggs'', Obj [(''teams'', Num 3)])]),
          SetInterval 1 AggsRefresh (Num 5000),
          Observe,
          Sent (Added ''players/easySearch'' (Str (''A'' @ quote ''a'' @ ''{}''))
                  [(''_id'', Str ''A''), (''score'', Num 9),
                   (''__searchDefinition'', Str (quote ''a'')),
                   (''__searchOptions'', Str ''{}''), (''__sortPosition'', Num 0),
                   (''__originalId'', Str ''A'')]),
          Sent (Added ''players/easySearch'' (Str (''B'' @ quote ''a'' @ ''{}''))
                  [(''_id'', Str ''B''), (''score'', Num 7),
                   (''__searchDefinition'', Str (quote ''a'')),
                   (''__searchOptions'', Str ''{}''), (''__sortPosition'', Num 1),
                   (''__originalId'', Str ''B'')]),
          Sent Ready] \<rparr>"
  by (simp add: example_session_def handler_stages closure_fields initial_adds_def addedAt_def
        addedAt_doc_def addCustomFields_def generateId_def get_field_def set_field_def
        js_add_def example_defs quote_def)

lemma example_running:
  "observing (example_session mc)" "\<not> deactivated (example_session mc)"
  "collectionScope (example_session mc) = example_collection mc"
  "definitionString (example_session mc) = Str (quote ''a'')"
  "optionsString (example_session mc) = Str ''{}''"
  by (simp_all add: example_session_eq)

lemma example_sent:
  "sent (example_session mc) =
     [Added ''players/easySearch'' (Str (''searchCount'' @ quote ''a'')) [(''count'', Num 2)],
      Added ''players/easySearch'' (Str (''aggs'' @ quote ''a''))
        [(''aggs'', Obj [(''teams'', Num 3)])],
      Added ''players/easySearch'' (Str (''A'' @ quote ''a'' @ ''{}''))
        [(''_id'', Str ''A''), (''score'', Num 9), (''__searchDefinition'', Str (quote ''a'')),
         (''__searchOptions'', Str ''{}''), (''__sortPosition'', Num 0),
         (''__originalId'', Str ''A'')],
      Added ''players/easySearch'' (Str (''B'' @ quote ''a'' @ ''{}''))
        [(''_id'', Str ''B''), (''score'', Num 7), (''__searchDefinition'', Str (quote ''a'')),
         (''__searchOptions'', Str ''{}''), (''__sortPosition'', Num 1),
         (''__originalId'', Str ''B'')],
      Ready]"
  by (simp add: example_session_eq sent_def)

lemma example_find:
  "find_documents JSON_stringify True (example_collection mc) example_mirror (Str ''a'')
     (fields_of example_options) =
   Inr \<lparr> documents =
           [[(''_id'', Str (''A'' @ quote ''a'' @ ''{}'')), (''score'', Num 9),
             (''__originalId'', Str ''A'')],
            [(''_id'', Str (''B'' @ quote ''a'' @ ''{}'')), (''score'', Num 7),
             (''__originalId'', Str ''B'')]],
         count_value = Num 2, reactive = True, publishHandle = True \<rparr>"
  by (simp add: find_documents_def getCount_def getMongoCursor_def Let_def example_mirror_def
        selected_def sortPosition_def client_transform_def delete_field_def example_defs
        get_field_simps js_add_def quote_def)

lemma example_publish_red:
  "publish JSON_stringify (example_collection mc) example_scope (Str ''a'') example_options_red
     = Inr (example_session_red mc)"
  by (simp add: publish_def example_session_red_def example_options_red_def example_defs
        handler_options_def get_field_simps)

section \<open>The handler, stage by stage\<close>

lemma publish_Inr:
  assumes "publish stringify c this searchDefinition options = Inr s"
  shows "s = set_up (search (engine c) searchDefinition (handler_options this options)
                      (indexConfiguration c))
               (new_session c this (stringify searchDefinition)
                  (stringify (get_field (fields_of options) ''props'')))"
  using assms by (simp add: publish_def Let_def split: if_splits)

lemma addedAt_eq:
  "\<not> deactivated s \<Longrightarrow>
   addedAt d i Null s =
     s\<lparr>effects := effects s @
        [Sent (Added (collection_name (collectionScope s))
                (generateId (addedAt_doc (collectionScope s) (definitionString s)
                               (optionsString s) d i Null))
                (addedAt_doc (collectionScope s) (definitionString s) (optionsString s)
                   d i Null))]\<rparr>"
  by (simp add: addedAt_def Let_def closure_fields)

lemma fold_addedAt_eq:
  "\<not> deactivated s \<Longrightarrow>
   fold (\<lambda>(i, d) acc. addedAt d i Null acc) (enumerate n ds) s =
     s\<lparr>effects := effects s @
        map (\<lambda>(i, d).
               Sent (Added (collection_name (collectionScope s))
                       (generateId (addedAt_doc (collectionScope s) (definitionString s)
                                      (optionsString s) d i Null))
                       (addedAt_doc (collectionScope s) (definitionString s) (optionsString s)
                          d i Null)))
          (enumerate n ds)\<rparr>"
proof (induction ds arbitrary: n s)
  case Nil
  then show ?case by simp
next
  case (Cons d ds)
  let ?s1 = "addedAt d n Null s"
  have s1: "?s1 = s\<lparr>effects := effects s @
        [Sent (Added (collection_name (collectionScope s))
                (generateId (addedAt_doc (collectionScope s) (definitionString s)
                               (optionsString s) d n Null))
                (addedAt_doc (collectionScope s) (definitionString s) (optionsString s)
                   d n Null))]\<rparr>"
    using Cons.prems by (rule addedAt_eq)
  have "\<not> deactivated ?s1" using Cons.prems by (simp add: s1)
  from Cons.IH [OF this, of "Suc n"] show ?case
    by (simp add: s1)
qed

lemma initial_adds_eq:
  "\<not> deactivated s \<Longrightarrow>
   initial_adds ds s =
     s\<lparr>effects := effects s @
        map (\<lambda>(i, d).
               Sent (Added (collection_name (collectionScope s))
                       (generateId (addedAt_doc (collectionScope s) (definitionString s)
                                      (optionsString s) d i Null))
                       (addedAt_doc (collectionScope s) (definitionString s) (optionsString s)
                          d i Null)))
          (enumerate 0 ds)\<rparr>"
  unfolding initial_adds_def by (rule fold_addedAt_eq)

lemma set_up_facts:
  fixes cur c this defStr optStr
  defines "s \<equiv> set_up cur (new_session c this defStr optStr)"
  shows set_up_closure:
      "collectionScope s = c \<and> scope s = this \<and> definitionString s = defStr
       \<and> optionsString s = optStr \<and> aggs s = aggs_ref cur \<and> intervalAggsID s = None"
    and set_up_running:
      "\<not> deactivated s \<and> resultsHandle s \<and> observing s
       \<and> stopCallbacks s = [ClearTimersAndObserver, StopObserver]"
    and set_up_effects:
      "HandleStop \<notin> set (effects s) \<and> MongoCursorCount \<notin> set (effects s)"
    and set_up_sent:
      "sent s =
         Added (collection_name c) (js_add (Str ''searchCount'') defStr)
           [(''count'', Num (cursor_count cur))]
         # (case aggs_ref cur of
              None \<Rightarrow> []
            | Some a \<Rightarrow> [Added (collection_name c) (js_add (Str ''aggs'') defStr)
                          [(''aggs'', objects cur a)]])
         @ map (\<lambda>(i, d). Added (collection_name c)
                           (generateId (addedAt_doc c defStr optStr d i Null))
                           (addedAt_doc c defStr optStr d i Null))
             (enumerate 0 (mongoCursor_docs cur))
         @ [Ready]"
proof -
  let ?s0 = "new_session c this defStr optStr"
  let ?s1 = "push_count cur ?s0"
  let ?s2 = "start_count_refresh ?s1"
  let ?s3 = "push_aggs cur ?s2"
  let ?s4 = "start_aggs_refresh ?s3"
  let ?s5 = "onStop ClearTimersAndObserver ?s4"
  let ?s6 = "observe cur ?s5"
  let ?s7 = "onStop StopObserver ?s6"
  let ?adds = "map (\<lambda>(i, d). Added (collection_name c)
                           (generateId (addedAt_doc c defStr optStr d i Null))
                           (addedAt_doc c defStr optStr d i Null))
             (enumerate 0 (mongoCursor_docs cur))"
  have f1: "\<not> deactivated ?s1" "collectionScope ?s1 = c" "definitionString ?s1 = defStr"
    "optionsString ?s1 = optStr" "scope ?s1 = this" "intervalAggsID ?s1 = None"
    "stopCallbacks ?s1 = []" "HandleStop \<notin> set (effects ?s1)"
    "MongoCursorCount \<notin> set (effects ?s1)"
    "sent ?s1 = [Added (collection_name c) (js_add (Str ''searchCount'') defStr)
                   [(''count'', Num (cursor_count cur))]]"
    by (simp_all add: new_session_def push_count_def closure_fields sent_def)
  have f2: "\<not> deactivated ?s2" "collectionScope ?s2 = c" "definitionString ?s2 = defStr"
    "optionsString ?s2 = optStr" "scope ?s2 = this" "intervalAggsID ?s2 = None"
    "stopCallbacks ?s2 = []" "HandleStop \<notin> set (effects ?s2)"
    "MongoCursorCount \<notin> set (effects ?s2)" "sent ?s2 = sent ?s1"
    using f1(1-9) by (simp_all add: start_count_refresh_def closure_fields sent_def)
  have f3: "\<not> deactivated ?s3" "collectionScope ?s3 = c" "definitionString ?s3 = defStr"
    "optionsString ?s3 = optStr" "scope ?s3 = this" "intervalAggsID ?s3 = None"
    "stopCallbacks ?s3 = []" "HandleStop \<notin> set (effects ?s3)"
    "MongoCursorCount \<notin> set (effects ?s3)"
    "sent ?s3 = sent ?s2 @ (case aggs_ref cur of
              None \<Rightarrow> []
            | Some a \<Rightarrow> [Added (collection_name c) (js_add (Str ''aggs'') defStr)
                          [(''aggs'', objects cur a)]])"
    "aggs ?s3 = aggs_ref cur"
    using f2(1-9)
    by (simp_all add: push_aggs_def closure_fields sent_def start_count_refresh_def
          push_count_def new_session_def split: option.split)
  have f4: "\<not> deactivated ?s4" "collectionScope ?s4 = c" "definitionString ?s4 = defStr"
    "optionsString ?s4 = optStr" "scope ?s4 = this" "intervalAggsID ?s4 = None"
    "stopCallbacks ?s4 = []" "HandleStop \<notin> set (effects ?s4)"
    "MongoCursorCount \<notin> set (effects ?s4)" "sent ?s4 = sent ?s3" "aggs ?s4 = aggs_ref cur"
    using f3(1-9,11) by (simp_all add: start_aggs_refresh_def closure_fields sent_def)
  have f5: "\<not> deactivated ?s5" "collectionScope ?s5 = c" "definitionString ?s5 = defStr"
    "optionsString ?s5 = optStr" "scope ?s5 = this" "intervalAggsID ?s5 = None"
    "stopCallbacks ?s5 = [ClearTimersAndObserver]" "HandleStop \<notin> set (effects ?s5)"
    "MongoCursorCount \<notin> set (effects ?s5)" "sent ?s5 = sent ?s4" "aggs ?s5 = aggs_ref cur"
    using f4(1-9,11) by (simp_all add: onStop_def sent_def)
  have f6: "\<not> deactivated ?s6" "collectionScope ?s6 = c" "definitionString ?s6 = defStr"
    "optionsString ?s6 = optStr" "scope ?s6 = this" "intervalAggsID ?s6 = None"
    "stopCallbacks ?s6 = [ClearTimersAndObserver]" "HandleStop \<notin> set (effects ?s6)"
    "MongoCursorCount \<notin> set (effects ?s6)" "sent ?s6 = sent ?s5 @ ?adds"
    "aggs ?s6 = aggs_ref cur" "resultsHandle ?s6" "observing ?s6"
    using f5(1-9,11)
    by (auto simp add: observe_def initial_adds_eq note_effect_def sent_def o_def
          case_prod_unfold)
  have f7: "\<not> deactivated ?s7" "collectionScope ?s7 = c" "definitionString ?s7 = defStr"
    "optionsString ?s7 = optStr" "scope ?s7 = this" "intervalAggsID ?s7 = None"
    "stopCallbacks ?s7 = [ClearTimersAndObserver, StopObserver]"
    "HandleStop \<notin> set (effects ?s7)"
    "MongoCursorCount \<notin> set (effects ?s7)" "sent ?s7 = sent ?s6"
    "aggs ?s7 = aggs_ref cur" "resultsHandle ?s7" "observing ?s7"
    using f6(1-9,11-13) by (simp_all add: onStop_def sent_def)
  have s: "s = emit Ready ?s7" by (simp add: s_def set_up_def)
  show "collectionScope s = c \<and> scope s = this \<and> definitionString s = defStr
       \<and> optionsString s = optStr \<and> aggs s = aggs_ref cur \<and> intervalAggsID s = None"
    using f7 by (simp add: s closure_fields)
  show "\<not> deactivated s \<and> resultsHandle s \<and> observing s
       \<and> stopCallbacks s = [ClearTimersAndObserver, StopObserver]"
    using f7 by (simp add: s closure_fields)
  show "HandleStop \<notin> set (effects s) \<and> MongoCursorCount \<notin> set (effects s)"
    using f7 by (simp add: s closure_fields)
  have "sent s = sent ?s7 @ [Ready]"
    using f7(1) by (simp add: s closure_fields sent_def)
  then show "sent s =
         Added (collection_name c) (js_add (Str ''searchCount'') defStr)
           [(''count'', Num (cursor_count cur))]
         # (case aggs_ref cur of
              None \<Rightarrow> []
            | Some a \<Rightarrow> [Added (collection_name c) (js_add (Str ''aggs'') defStr)
                          [(''aggs'', objects cur a)]])
         @ ?adds @ [Ready]"
    by (simp add: f1(10) f2(10) f3(10) f4(10) f5(10) f6(10) f7(10))
qed

lemma publish_sent:
  assumes "publish stringify c this searchDefinition options = Inr s"
  shows "sent s =
     Added (collection_name c) (js_add (Str ''searchCount'') (stringify searchDefinition))
       [(''count'', Num (cursor_count (search (engine c) searchDefinition
                                        (handler_options this options) (indexConfiguration c))))]
     # (case aggs_ref (search (engine c) searchDefinition (handler_options this options)
                        (indexConfiguration c)) of
          None \<Rightarrow> []
        | Some a \<Rightarrow>
            [Added (collection_name c) (js_add (Str ''aggs'') (stringify searchDefinition))
               [(''aggs'', objects (search (engine c) searchDefinition
                                     (handler_options this options) (indexConfiguration c)) a)]])
     @ map (\<lambda>(i, d). Added (collection_name c)
                       (generateId (addedAt_doc c (stringify searchDefinition)
                          (stringify (get_field (fields_of options) ''props'')) d i Null))
                       (addedAt_doc c (stringify searchDefinition)
                          (stringify (get_field (fields_of options) ''props'')) d i Null))
         (enumerate 0 (mongoCursor_docs (search (engine c) searchDefinition
                                           (handler_options this options)
                                           (indexConfiguration c))))
     @ [Ready]"
  unfolding publish_Inr [OF assms] by (rule set_up_sent)

section \<open>Callbacks and the stop\<close>

lemma js_or_count: "js_or (Num n) (Num 0) = Num n"
  by (simp add: js_or_def)

lemma count_refresh_eq:
  "count_refresh cur s =
     s\<lparr>effects := effects s @
        (if truthy (get_field (scope s) ''mongoCount'')
         then MongoCursorCount
              # (if deactivated s then []
                 else [Sent (Changed (collection_name (collectionScope s))
                          (js_add (Str ''searchCount'') (definitionString s))
                          [(''count'', Num (mongoCursor_count cur))])])
         else CursorCount
              # (if deactivated s then []
                 else [Sent (Changed (collection_name (collectionScope s))
                          (js_add (Str ''searchCount'') (definitionString s))
                          [(''count'', Num (cursor_count cur))])]))\<rparr>"
  by (simp add: count_refresh_def closure_fields js_or_count)

lemma aggs_refresh_eq:
  "aggs_refresh cur s =
     s\<lparr>effects := effects s @
        (if deactivated s then []
         else [Sent (Changed (collection_name (collectionScope s))
                  (js_add (Str ''aggs'') (definitionString s))
                  [(''aggs'', (case aggs s of None \<Rightarrow> Undefined | Some a \<Rightarrow> objects cur a))])])\<rparr>"
  by (simp add: aggs_refresh_def closure_fields)

lemma fire_frame:
  "\<exists>es. fire h cur s = s\<lparr>effects := effects s @ es\<rparr>
        \<and> HandleStop \<notin> set es
        \<and> (MongoCursorCount \<in> set es \<longrightarrow> truthy (get_field (scope s) ''mongoCount''))
        \<and> (deactivated s \<longrightarrow> [m. Sent m \<leftarrow> es] = [])"
proof (cases "map_of (timers s) h")
  case None
  then have "fire h cur s = s\<lparr>effects := effects s @ []\<rparr>" by (simp add: fire_def)
  then show ?thesis by (intro exI [of _ "[]"]) simp
next
  case (Some cb)
  show ?thesis
  proof (cases cb)
    case CountRefresh
    with Some have "fire h cur s = count_refresh cur s" by (simp add: fire_def)
    then show ?thesis
      by (subst (asm) count_refresh_eq) (rule exI, erule conjI, simp)
  next
    case AggsRefresh
    with Some have "fire h cur s = aggs_refresh cur s" by (simp add: fire_def)
    then show ?thesis
      by (subst (asm) aggs_refresh_eq) (rule exI, erule conjI, simp)
  qed
qed

lemma callback_frame:
  "\<exists>ms. callback e s = s\<lparr>effects := effects s @ map Sent ms\<rparr> \<and> (deactivated s \<longrightarrow> ms = [])"
proof (cases e)
  case (AddedAt d i b)
  show ?thesis
    by (cases "deactivated s")
      (auto simp add: AddedAt addedAt_def Let_def closure_fields
         intro: exI [of _ "[]"] exI [of _ "[m]" for m])
next
  case (ChangedAt d od i)
  show ?thesis
    by (cases "deactivated s")
      (auto simp add: ChangedAt changedAt_def Let_def closure_fields
         intro: exI [of _ "[]"] exI [of _ "[m]" for m])
next
  case (MovedTo d i j b)
  show ?thesis
    by (cases "deactivated s"; cases "collection_findOne (indexConfiguration (collectionScope s)) b")
      (auto simp add: MovedTo movedTo_def Let_def closure_fields
         intro: exI [of _ "[]"] exI [of _ "[m]" for m] exI [of _ "[m, m']" for m m'])
next
  case (RemovedAt d i)
  show ?thesis
    by (cases "deactivated s")
      (auto simp add: RemovedAt removedAt_def Let_def closure_fields
         intro: exI [of _ "[]"] exI [of _ "[m]" for m])
qed

lemma deliver_frame:
  "\<exists>ms. deliver e s = s\<lparr>effects := effects s @ map Sent ms\<rparr> \<and> (deactivated s \<longrightarrow> ms = [])"
proof (cases "observing s")
  case True
  then show ?thesis using callback_frame [of e s] by (simp add: deliver_def)
next
  case False
  then have "deliver e s = s\<lparr>effects := effects s @ map Sent []\<rparr>" by (simp add: deliver_def)
  then show ?thesis by blast
qed

text \<open>The stop of a subscription whose handler has returned.\<close>

lemma stop_eq:
  assumes "\<not> deactivated s" and "resultsHandle s"
    and "stopCallbacks s = [ClearTimersAndObserver, StopObserver]"
  shows "stop s =
     s\<lparr>deactivated := True, observing := False,
       timers := filter (\<lambda>t. (case intervalAggsID s of None \<Rightarrow> True | Some h \<Rightarrow> fst t \<noteq> h))
                   (filter (\<lambda>t. (case intervalID s of None \<Rightarrow> True | Some h \<Rightarrow> fst t \<noteq> h))
                      (timers s)),
       effects := effects s
          @ (case intervalID s of None \<Rightarrow> [] | Some h \<Rightarrow> [ClearInterval h])
          @ (case intervalAggsID s of None \<Rightarrow> [] | Some h \<Rightarrow> [ClearInterval h])
          @ [HandleStop, HandleStop]\<rparr>"
  using assms
  by (cases "intervalID s"; cases "intervalAggsID s")
     (simp_all add: stop_def closure_fields)

lemma step_running:
  assumes "resultsHandle s" and "stopCallbacks s = [ClearTimersAndObserver, StopObserver]"
    and "deactivated s = b" and "observing s = (\<not> b)"
    and "count_list (effects s) HandleStop = (if b then 2 else 0)"
  shows "resultsHandle (step e s)
       \<and> stopCallbacks (step e s) = [ClearTimersAndObserver, StopObserver]
       \<and> deactivated (step e s) = (b \<or> e = Stop)
       \<and> observing (step e s) = (\<not> (b \<or> e = Stop))
       \<and> count_list (effects (step e s)) HandleStop
           = (if b \<or> e = Stop then 2 else 0)"
proof (cases e)
  case (Fires h cur)
  obtain es where "fire h cur s = s\<lparr>effects := effects s @ es\<rparr>" and "HandleStop \<notin> set es"
    using fire_frame [of h cur s] by blast
  moreover from this(2) have "count_list es HandleStop = 0"
    by (simp add: count_list_0_iff)
  ultimately show ?thesis using assms by (simp add: Fires)
next
  case (Diff ev)
  obtain ms where "deliver ev s = s\<lparr>effects := effects s @ map Sent ms\<rparr>"
    using deliver_frame [of ev s] by blast
  moreover have "count_list (map Sent ms) HandleStop = 0"
    by (auto simp add: count_list_0_iff)
  ultimately show ?thesis using assms by (simp add: Diff)
next
  case Stop
  show ?thesis
  proof (cases b)
    case True
    then show ?thesis using assms by (simp add: Stop stop_def)
  next
    case False
    with assms have "\<not> deactivated s" by simp
    from stop_eq [OF this assms(1,2)] False assms show ?thesis
      by (simp add: Stop split: option.split)
  qed
qed

lemma run_running:
  assumes "resultsHandle s" and "stopCallbacks s = [ClearTimersAndObserver, StopObserver]"
    and "deactivated s = b" and "observing s = (\<not> b)"
    and "count_list (effects s) HandleStop = (if b then 2 else 0)"
  shows "deactivated (run es s) = (b \<or> Stop \<in> set es)
       \<and> observing (run es s) = (\<not> (b \<or> Stop \<in> set es))
       \<and> count_list (effects (run es s)) HandleStop
           = (if b \<or> Stop \<in> set es then 2 else 0)"
  using assms
proof (induction es arbitrary: s b)
  case Nil
  then show ?case by (simp add: run_def)
next
  case (Cons e es)
  from step_running [OF Cons.prems, of e]
  have "deactivated (run es (step e s)) = ((b \<or> e = Stop) \<or> Stop \<in> set es)
       \<and> observing (run es (step e s)) = (\<not> ((b \<or> e = Stop) \<or> Stop \<in> set es))
       \<and> count_list (effects (run es (step e s))) HandleStop
           = (if (b \<or> e = Stop) \<or> Stop \<in> set es then 2 else 0)"
    by (intro Cons.IH) simp_all
  then show ?case by (auto simp add: run_def)
qed

lemma step_closure:
  "scope (step e s) = scope s \<and> collectionScope (step e s) = collectionScope s
   \<and> definitionString (step e s) = definitionString s
   \<and> optionsString (step e s) = optionsString s \<and> aggs (step e s) = aggs s"
proof (cases e)
  case (Fires h cur)
  obtain es where "fire h cur s = s\<lparr>effects := effects s @ es\<rparr>"
    using fire_frame [of h cur s] by blast
  then show ?thesis by (simp add: Fires)
next
  case (Diff ev)
  obtain ms where "deliver ev s = s\<lparr>effects := effects s @ map Sent ms\<rparr>"
    using deliver_frame [of ev s] by blast
  then show ?thesis by (simp add: Diff)
next
  case Stop
  have fold_cb: "scope (fold run_stop_callback cbs t) = scope t
      \<and> collectionScope (fold run_stop_callback cbs t) = collectionScope t
      \<and> definitionString (fold run_stop_callback cbs t) = definitionString t
      \<and> optionsString (fold run_stop_callback cbs t) = optionsString t
      \<and> aggs (fold run_stop_callback cbs t) = aggs t" for cbs t
  proof (induction cbs arbitrary: t)
    case Nil
    then show ?case by simp
  next
    case (Cons cb cbs)
    have "scope (run_stop_callback cb t) = scope t
      \<and> collectionScope (run_stop_callback cb t) = collectionScope t
      \<and> definitionString (run_stop_callback cb t) = definitionString t
      \<and> optionsString (run_stop_callback cb t) = optionsString t
      \<and> aggs (run_stop_callback cb t) = aggs t"
      by (cases cb) (simp_all add: closure_fields Let_def split: option.split)
    with Cons.IH [of "run_stop_callback cb t"] show ?case by simp
  qed
  show ?thesis using fold_cb [of "stopCallbacks s" "s\<lparr>deactivated := True\<rparr>"]
    by (simp add: Stop stop_def)
qed

lemma run_closure:
  "scope (run es s) = scope s \<and> collectionScope (run es s) = collectionScope s
   \<and> definitionString (run es s) = definitionString s
   \<and> optionsString (run es s) = optionsString s \<and> aggs (run es s) = aggs s"
proof (induction es arbitrary: s)
  case Nil
  then show ?case by (simp add: run_def)
next
  case (Cons e es)
  from Cons.IH [of "step e s"] step_closure [of e s] show ?case by (simp add: run_def)
qed

lemma example_stop:
  "stop (example_session mc) =
     (example_session mc)
       \<lparr>deactivated := True, observing := False, timers := [(0, CountRefresh)],
        effects := effects (example_session mc) @ [ClearInterval 1, HandleStop, HandleStop]\<rparr>"
proof -
  have "\<not> deactivated (example_session mc)" "resultsHandle (example_session mc)"
    "stopCallbacks (example_session mc) = [ClearTimersAndObserver, StopObserver]"
    by (simp_all add: example_session_eq)
  from stop_eq [OF this] show ?thesis
    by (simp add: example_session_eq)
qed

lemma deactivated_fold_stop:
  "deactivated t \<Longrightarrow> deactivated (fold run_stop_callback cbs t)"
proof (induction cbs arbitrary: t)
  case Nil
  then show ?case by simp
next
  case (Cons cb cbs)
  from Cons.prems have "deactivated (run_stop_callback cb t)"
    by (cases cb) (simp_all add: closure_fields Let_def split: option.split)
  from Cons.IH [OF this] show ?case by simp
qed

lemma deactivated_stop: "deactivated (stop s)"
  using deactivated_fold_stop [of "s\<lparr>deactivated := True\<rparr>" "stopCallbacks s"]
  by (simp add: stop_def)

lemma step_deactivated:
  assumes "deactivated s"
  shows "deactivated (step e s) \<and> sent (step e s) = sent s"
proof (cases e)
  case (Fires h cur)
  obtain es where "fire h cur s = s\<lparr>effects := effects s @ es\<rparr>"
    and "deactivated s \<longrightarrow> [m. Sent m \<leftarrow> es] = []"
    using fire_frame [of h cur s] by blast
  with assms show ?thesis by (simp add: Fires sent_def)
next
  case (Diff ev)
  obtain ms where "deliver ev s = s\<lparr>effects := effects s @ map Sent ms\<rparr>"
    and "deactivated s \<longrightarrow> ms = []"
    using deliver_frame [of ev s] by blast
  with assms show ?thesis by (simp add: Diff sent_def)
next
  case Stop
  with assms show ?thesis by (simp add: stop_def)
qed

lemma step_no_mongoCursor_count:
  assumes "\<not> truthy (get_field (scope s) ''mongoCount'')"
    and "MongoCursorCount \<notin> set (effects s)"
  shows "MongoCursorCount \<notin> set (effects (step e s))"
proof (cases e)
  case (Fires h cur)
  obtain es where "fire h cur s = s\<lparr>effects := effects s @ es\<rparr>"
    and "MongoCursorCount \<in> set es \<longrightarrow> truthy (get_field (scope s) ''mongoCount'')"
    using fire_frame [of h cur s] by blast
  with assms show ?thesis by (auto simp add: Fires)
next
  case (Diff ev)
  obtain ms where "deliver ev s = s\<lparr>effects := effects s @ map Sent ms\<rparr>"
    using deliver_frame [of ev s] by blast
  with assms show ?thesis by (auto simp add: Diff)
next
  case Stop
  have fold_cb: "MongoCursorCount \<notin> set (effects t) \<Longrightarrow>
      MongoCursorCount \<notin> set (effects (fold run_stop_callback cbs t))" for cbs t
  proof (induction cbs arbitrary: t)
    case Nil
    then show ?case by simp
  next
    case (Cons cb cbs)
    from Cons.prems have "MongoCursorCount \<notin> set (effects (run_stop_callback cb t))"
      by (cases cb) (simp_all add: closure_fields Let_def split: option.split)
    from Cons.IH [OF this] show ?case by simp
  qed
  from assms(2) fold_cb [of "s\<lparr>deactivated := True\<rparr>" "stopCallbacks s"]
  show ?thesis by (simp add: Stop stop_def)
qed

lemma run_no_mongoCursor_count:
  assumes "\<not> truthy (get_field (scope s) ''mongoCount'')"
    and "MongoCursorCount \<notin> set (effects s)"
  shows "MongoCursorCount \<notin> set (effects (run es s))"
  using assms
proof (induction es arbitrary: s)
  case Nil
  then show ?case by (simp add: run_def)
next
  case (Cons e es)
  have "\<not> truthy (get_field (scope (step e s)) ''mongoCount'')"
    using Cons.prems(1) step_closure [of e s] by simp
  moreover have "MongoCursorCount \<notin> set (effects (step e s))"
    using Cons.prems by (rule step_no_mongoCursor_count)
  ultimately have "MongoCursorCount \<notin> set (effects (run es (step e s)))"
    by (rule Cons.IH)
  then show ?case by (simp add: run_def)
qed

lemma js_add_Str_inject:
  "js_add (Str p) (Str a) = js_add (Str p) (Str b) \<longleftrightarrow> a = b"
  by (simp add: js_add_def)

section \<open>Teardown\<close>

text \<open>
  C1. With both refresh intervals configured and aggregations present, line 224 stores
  the handle of the aggregation interval in \<open>intervalID\<close>, over the handle of the count
  interval, and \<open>intervalAggsID\<close> stays undefined. The stop then clears the aggregation
  interval only: the count interval (handle 0) is still running after the stop, and when
  it fires its callback runs and calls \<open>cursor.count()\<close> again. The message of that
  callback is dropped, because Meteor drops what a deactivated subscription sends.
\<close>

theorem count_interval_survives_stop:
  "publish JSON_stringify (example_collection True) example_scope (Str ''a'') example_options
     = Inr (example_session True)
   \<and> timers (example_session True) = [(0, CountRefresh), (1, AggsRefresh)]
   \<and> timers (stop (example_session True)) = [(0, CountRefresh)]
   \<and> count_list (effects (stop (example_session True))) (ClearInterval 0) = 0
   \<and> count_list (effects (stop (example_session True))) (ClearInterval 1) = 1
   \<and> effects (fire 0 example_cursor (stop (example_session True)))
       = effects (stop (example_session True)) @ [CursorCount]"
proof -
  have "effects (fire 0 example_cursor (stop (example_session True)))
       = effects (stop (example_session True)) @ [CursorCount]"
    by (simp add: example_stop fire_def count_refresh_eq)
       (simp add: example_session_eq example_scope_def get_field_simps)
  moreover have "timers (example_session True) = [(0, CountRefresh), (1, AggsRefresh)]"
    "timers (stop (example_session True)) = [(0, CountRefresh)]"
    "count_list (effects (stop (example_session True))) (ClearInterval 0) = 0"
    "count_list (effects (stop (example_session True))) (ClearInterval 1) = 1"
    by (simp_all add: example_stop) (simp_all add: example_session_eq)
  ultimately show ?thesis using example_publish [of True] by simp
qed

text \<open>
  What does hold of the teardown: once a subscription has stopped, nothing that happens
  later (an interval that fires, a diff event, another stop) sends a message, because
  Meteor drops what a deactivated subscription sends; and stopping twice is stopping once.
\<close>

theorem nothing_sent_after_stop:
  "sent (run es (stop s)) = sent (stop s) \<and> stop (stop s) = stop s"
proof -
  have "deactivated t \<Longrightarrow> sent (run es t) = sent t" for t
  proof (induction es arbitrary: t)
    case Nil
    then show ?case by (simp add: run_def)
  next
    case (Cons e es)
    from step_deactivated [OF Cons.prems, of e] Cons.IH [of "step e t"]
    show ?case by (simp add: run_def)
  qed
  from this [OF deactivated_stop] deactivated_stop [of s] show ?thesis
    by (simp add: stop_def)
qed

section \<open>The messages of the handler\<close>

text \<open>
  C2 (as the code has it). The messages a subscription sends until the handler returns
  are, in this order: one \<open>added\<close> for the count record, one \<open>added\<close> for the
  aggregation record if the cursor has aggregations, one \<open>added\<close> for every document of
  the initial result, in the result's order and stamped with its position, and \<open>ready\<close>.
  The two records are sent once, whether or not their intervals are configured, and
  before the initial result.
\<close>

theorem initial_messages:
  fixes stringify c this searchDefinition options
  defines "cur \<equiv> search (engine c) searchDefinition (handler_options this options)
                   (indexConfiguration c)"
    and "defStr \<equiv> stringify searchDefinition"
    and "optStr \<equiv> stringify (get_field (fields_of options) ''props'')"
  assumes "publish stringify c this searchDefinition options = Inr s"
  shows "sent s =
     Added (collection_name c) (js_add (Str ''searchCount'') defStr)
       [(''count'', Num (cursor_count cur))]
     # (case aggs_ref cur of
          None \<Rightarrow> []
        | Some a \<Rightarrow> [Added (collection_name c) (js_add (Str ''aggs'') defStr)
                      [(''aggs'', objects cur a)]])
     @ map (\<lambda>(i, d). Added (collection_name c)
                       (generateId (addedAt_doc c defStr optStr d i Null))
                       (addedAt_doc c defStr optStr d i Null))
         (enumerate 0 (mongoCursor_docs cur))
     @ [Ready]"
  unfolding cur_def defStr_def optStr_def using assms(4) by (rule publish_sent)

theorem initial_messages_witness:
  "publish JSON_stringify (example_collection True) example_scope (Str ''a'') example_options
     = Inr (example_session True)
   \<and> sent (example_session True) =
     [Added ''players/easySearch'' (Str (''searchCount'' @ quote ''a'')) [(''count'', Num 2)],
      Added ''players/easySearch'' (Str (''aggs'' @ quote ''a''))
        [(''aggs'', Obj [(''teams'', Num 3)])],
      Added ''players/easySearch'' (Str (''A'' @ quote ''a'' @ ''{}''))
        [(''_id'', Str ''A''), (''score'', Num 9), (''__searchDefinition'', Str (quote ''a'')),
         (''__searchOptions'', Str ''{}''), (''__sortPosition'', Num 0),
         (''__originalId'', Str ''A'')],
      Added ''players/easySearch'' (Str (''B'' @ quote ''a'' @ ''{}''))
        [(''_id'', Str ''B''), (''score'', Num 7), (''__searchDefinition'', Str (quote ''a'')),
         (''__searchOptions'', Str ''{}''), (''__sortPosition'', Num 1),
         (''__originalId'', Str ''B'')],
      Ready]"
proof -
  have h: "publish JSON_stringify (example_collection True) example_scope (Str ''a'')
             example_options = Inr (example_session True)"
    by (rule example_publish)
  from initial_messages [OF h]
  have "sent (example_session True) =
     [Added ''players/easySearch'' (Str (''searchCount'' @ quote ''a'')) [(''count'', Num 2)],
      Added ''players/easySearch'' (Str (''aggs'' @ quote ''a''))
        [(''aggs'', Obj [(''teams'', Num 3)])],
      Added ''players/easySearch'' (Str (''A'' @ quote ''a'' @ ''{}''))
        [(''_id'', Str ''A''), (''score'', Num 9), (''__searchDefinition'', Str (quote ''a'')),
         (''__searchOptions'', Str ''{}''), (''__sortPosition'', Num 0),
         (''__originalId'', Str ''A'')],
      Added ''players/easySearch'' (Str (''B'' @ quote ''a'' @ ''{}''))
        [(''_id'', Str ''B''), (''score'', Num 7), (''__searchDefinition'', Str (quote ''a'')),
         (''__searchOptions'', Str ''{}''), (''__sortPosition'', Num 1),
         (''__originalId'', Str ''B'')],
      Ready]"
    by (simp add: example_defs addedAt_doc_def addCustomFields_def generateId_def
          get_field_simps set_field_def js_add_def)
  with h show ?thesis by simp
qed

text \<open>
  C2 as stated fails: in the example the initial result has two documents, and the first
  two messages are the count record and the aggregation record.
\<close>

theorem count_record_sent_first:
  "publish JSON_stringify (example_collection False) example_scope (Str ''a'') example_options
     = Inr (example_session False)
   \<and> length (mongoCursor_docs example_cursor) = 2
   \<and> take 2 (sent (example_session False)) =
       [Added ''players/easySearch'' (Str (''searchCount'' @ quote ''a'')) [(''count'', Num 2)],
        Added ''players/easySearch'' (Str (''aggs'' @ quote ''a''))
          [(''aggs'', Obj [(''teams'', Num 3)])]]"
  by (simp add: example_publish example_sent example_cursor_def players_def)

section \<open>Moved documents\<close>

text \<open>
  C3 (as the code has it). For a \<open>movedTo\<close> event that reaches a running subscription,
  the last message is a \<open>changed\<close> for the moved document, stamped with \<open>toIndex\<close>. When
  \<open>collection.findOne(before)\<close> finds a document, a \<open>changed\<close> for that document, stamped
  with \<open>fromIndex\<close> and keeping its id, is sent before it: two messages. When it finds
  none, the one message is all.
\<close>

theorem movedTo_messages:
  assumes "observing s" and "\<not> deactivated s"
  shows "sent (deliver (MovedTo d fromIndex toIndex beforeId) s) =
           sent s
           @ (case collection_findOne (indexConfiguration (collectionScope s)) beforeId of
                None \<Rightarrow> []
              | Some beforeDoc \<Rightarrow>
                  [Changed (collection_name (collectionScope s))
                     (generateId (movedTo_beforeDoc (definitionString s) (optionsString s)
                                    beforeDoc fromIndex))
                     (movedTo_beforeDoc (definitionString s) (optionsString s)
                        beforeDoc fromIndex)])
           @ [Changed (collection_name (collectionScope s))
                (generateId (movedTo_doc (collectionScope s) (definitionString s)
                               (optionsString s) d fromIndex toIndex beforeId))
                (movedTo_doc (collectionScope s) (definitionString s) (optionsString s)
                   d fromIndex toIndex beforeId)]
       \<and> get_field (movedTo_doc c defStr optStr d fromIndex toIndex beforeId) ''__sortPosition''
           = Num (int toIndex)
       \<and> get_field (movedTo_beforeDoc defStr optStr beforeDoc fromIndex) ''__sortPosition''
           = Num (int fromIndex)
       \<and> get_field (movedTo_beforeDoc defStr optStr beforeDoc fromIndex) ''_id''
           = get_field beforeDoc ''_id''"
proof -
  have "sent (movedTo d fromIndex toIndex beforeId s) =
           sent s
           @ (case collection_findOne (indexConfiguration (collectionScope s)) beforeId of
                None \<Rightarrow> []
              | Some beforeDoc \<Rightarrow>
                  [Changed (collection_name (collectionScope s))
                     (generateId (movedTo_beforeDoc (definitionString s) (optionsString s)
                                    beforeDoc fromIndex))
                     (movedTo_beforeDoc (definitionString s) (optionsString s)
                        beforeDoc fromIndex)])
           @ [Changed (collection_name (collectionScope s))
                (generateId (movedTo_doc (collectionScope s) (definitionString s)
                               (optionsString s) d fromIndex toIndex beforeId))
                (movedTo_doc (collectionScope s) (definitionString s) (optionsString s)
                   d fromIndex toIndex beforeId)]"
    using assms(2)
    by (cases "collection_findOne (indexConfiguration (collectionScope s)) beforeId")
       (simp_all add: movedTo_def Let_def closure_fields sent_def)
  moreover have "get_field (movedTo_doc c defStr optStr d fromIndex toIndex beforeId)
      ''__sortPosition'' = Num (int toIndex)"
    by (simp add: movedTo_doc_def Let_def get_field_addCustomFields3)
  moreover have "get_field (movedTo_beforeDoc defStr optStr beforeDoc fromIndex)
      ''__sortPosition'' = Num (int fromIndex)"
    "get_field (movedTo_beforeDoc defStr optStr beforeDoc fromIndex) ''_id''
      = get_field beforeDoc ''_id''"
    by (simp_all add: movedTo_beforeDoc_def get_field_addCustomFields3)
  ultimately show ?thesis using assms(1) by (simp add: deliver_def)
qed

theorem movedTo_messages_witness:
  "observing (example_session True) \<and> \<not> deactivated (example_session True)
   \<and> sent (deliver (MovedTo [(''_id'', Str ''B''), (''score'', Num 7)] 1 0 (Str ''A''))
             (example_session True)) =
       sent (example_session True)
       @ [Changed ''players/easySearch'' (Str (''A'' @ quote ''a'' @ ''{}''))
            [(''_id'', Str ''A''), (''score'', Num 9), (''__searchDefinition'', Str (quote ''a'')),
             (''__searchOptions'', Str ''{}''), (''__sortPosition'', Num 1)],
          Changed ''players/easySearch'' (Str (''B'' @ quote ''a'' @ ''{}''))
            [(''_id'', Str ''B''), (''score'', Num 7), (''__searchDefinition'', Str (quote ''a'')),
             (''__searchOptions'', Str ''{}''), (''__sortPosition'', Num 0)]]"
proof -
  have h1: "observing (example_session True)" and h2: "\<not> deactivated (example_session True)"
    by (rule example_running)+
  from movedTo_messages [OF h1 h2, of "[(''_id'', Str ''B''), (''score'', Num 7)]" 1 0 "Str ''A''"]
  have "sent (deliver (MovedTo [(''_id'', Str ''B''), (''score'', Num 7)] 1 0 (Str ''A''))
             (example_session True)) =
       sent (example_session True)
       @ [Changed ''players/easySearch'' (Str (''A'' @ quote ''a'' @ ''{}''))
            [(''_id'', Str ''A''), (''score'', Num 9), (''__searchDefinition'', Str (quote ''a'')),
             (''__searchOptions'', Str ''{}''), (''__sortPosition'', Num 1)],
          Changed ''players/easySearch'' (Str (''B'' @ quote ''a'' @ ''{}''))
            [(''_id'', Str ''B''), (''score'', Num 7), (''__searchDefinition'', Str (quote ''a'')),
             (''__searchOptions'', Str ''{}''), (''__sortPosition'', Num 0)]]"
    by (simp add: example_running example_defs movedTo_doc_def movedTo_beforeDoc_def
          addCustomFields_def generateId_def get_field_simps set_field_def js_add_def)
  with h1 h2 show ?thesis by simp
qed

text \<open>
  C3 as stated fails: a document moved to the end has \<open>before = null\<close>, the lookup finds
  nothing and exactly one message is sent.
\<close>

theorem movedTo_to_the_end_sends_one_message:
  "publish JSON_stringify (example_collection True) example_scope (Str ''a'') example_options
     = Inr (example_session True)
   \<and> collection_findOne (indexConfiguration (example_collection True)) Null = None
   \<and> sent (deliver (MovedTo [(''_id'', Str ''A''), (''score'', Num 9)] 0 1 Null)
             (example_session True)) =
       sent (example_session True)
       @ [Changed ''players/easySearch'' (Str (''A'' @ quote ''a'' @ ''{}''))
            [(''_id'', Str ''A''), (''score'', Num 9), (''__searchDefinition'', Str (quote ''a'')),
             (''__searchOptions'', Str ''{}''), (''__sortPosition'', Num 1)]]"
proof -
  have n: "collection_findOne (indexConfiguration (example_collection True)) Null = None"
    by (simp add: example_defs get_field_simps)
  have "sent (deliver (MovedTo [(''_id'', Str ''A''), (''score'', Num 9)] 0 1 Null)
             (example_session True)) =
       sent (example_session True)
       @ [Changed ''players/easySearch'' (Str (''A'' @ quote ''a'' @ ''{}''))
            [(''_id'', Str ''A''), (''score'', Num 9), (''__searchDefinition'', Str (quote ''a'')),
             (''__searchOptions'', Str ''{}''), (''__sortPosition'', Num 1)]]"
    by (simp add: deliver_def movedTo_def Let_def example_running n closure_fields sent_def)
       (simp add: example_defs movedTo_doc_def addCustomFields_def generateId_def
          get_field_simps set_field_def js_add_def)
  with n example_publish [of True] show ?thesis by simp
qed

section \<open>Identities\<close>

text \<open>
  C4. \<open>generateId\<close> joins the id, the definition string and the options string with
  nothing between them, so two different documents of two different searches can get one
  key. Here the first document has the id \<open>x\<close> and is found by the search for the
  three characters b, double quote, a; the second has the four characters x, double
  quote, b, backslash as its id and is found by the search for \<open>a\<close>; both searches have
  the options \<open>{}\<close>. The two keys are the same string.
\<close>

theorem generateId_collision:
  "generateId (addCustomFields [(''_id'', Str ''x'')]
       [(''searchDefinition'', JSON_stringify (Str (''b'' @ [CHR 0x22] @ ''a''))),
        (''searchOptions'', JSON_stringify (Obj []))])
   = generateId (addCustomFields [(''_id'', Str (''x'' @ [CHR 0x22] @ ''b'' @ [CHR 0x5C]))]
       [(''searchDefinition'', JSON_stringify (Str ''a'')),
        (''searchOptions'', JSON_stringify (Obj []))])
   \<and> Str ''x'' \<noteq> Str (''x'' @ [CHR 0x22] @ ''b'' @ [CHR 0x5C])
   \<and> JSON_stringify (Str (''b'' @ [CHR 0x22] @ ''a'')) \<noteq> JSON_stringify (Str ''a'')"
  by (simp add: generateId_def addCustomFields_def get_field_def set_field_def js_add_def
        quote_def)

text \<open>
  What does hold of \<open>generateId\<close>: it is a function of the three fields, and two documents
  with string fields and one key have the same id, definition string and options string
  whenever neither id is a proper prefix of the other and neither definition string is a
  proper prefix of the other.
\<close>

theorem generateId_injective_without_prefixes:
  assumes "generateId d = generateId d'"
    and "get_field d ''_id'' = Str i" and "get_field d' ''_id'' = Str i'"
    and "get_field d ''__searchDefinition'' = Str a"
    and "get_field d' ''__searchDefinition'' = Str a'"
    and "get_field d ''__searchOptions'' = Str b"
    and "get_field d' ''__searchOptions'' = Str b'"
    and "\<not> strict_prefix i i'" and "\<not> strict_prefix i' i"
    and "\<not> strict_prefix a a'" and "\<not> strict_prefix a' a"
  shows "i = i' \<and> a = a' \<and> b = b'"
proof -
  from assms(1-7) have eq: "i @ a @ b = i' @ a' @ b'"
    by (simp add: generateId_def js_add_def)
  have "prefix i (i @ a @ b)" by simp
  moreover have "prefix i' (i @ a @ b)" unfolding eq by simp
  ultimately have "prefix i i' \<or> prefix i' i" by (rule prefix_same_cases)
  with assms(8,9) have i: "i = i'" by (auto simp add: strict_prefix_def)
  with eq have eq': "a @ b = a' @ b'" by simp
  have "prefix a (a @ b)" by simp
  moreover have "prefix a' (a @ b)" unfolding eq' by simp
  ultimately have "prefix a a' \<or> prefix a' a" by (rule prefix_same_cases)
  with assms(10,11) have a: "a = a'" by (auto simp add: strict_prefix_def)
  with eq' i show ?thesis by simp
qed

theorem generateId_injective_without_prefixes_witness:
  "generateId [(''_id'', Str ''A''), (''__searchDefinition'', Str (quote ''a'')),
               (''__searchOptions'', Str ''{}'')]
     = generateId [(''_id'', Str ''A''), (''__searchDefinition'', Str (quote ''a'')),
                   (''__searchOptions'', Str ''{}'')]
   \<and> \<not> strict_prefix ''A'' ''A'' \<and> \<not> strict_prefix (quote ''a'') (quote ''a'')
   \<and> ''A'' = ''A'' \<and> quote ''a'' = quote ''a'' \<and> ''{}'' = ''{}''"
proof -
  let ?d = "[(''_id'', Str ''A''), (''__searchDefinition'', Str (quote ''a'')),
             (''__searchOptions'', Str ''{}'')]"
  have f: "get_field ?d ''_id'' = Str ''A''" "get_field ?d ''__searchDefinition'' = Str (quote ''a'')"
    "get_field ?d ''__searchOptions'' = Str ''{}''"
    by (simp_all add: get_field_simps)
  have p: "\<not> strict_prefix ''A'' ''A''" "\<not> strict_prefix (quote ''a'') (quote ''a'')"
    by simp_all
  from generateId_injective_without_prefixes [OF refl f(1) f(1) f(2) f(2) f(3) f(3) p(1) p(1) p(2) p(2)]
    p show ?thesis by simp
qed

section \<open>The key of the count record\<close>

text \<open>
  C5 (as the code has it). The key of the count record is \<open>searchCount\<close> followed by the
  serialization of the search definition alone. Two subscriptions with the same search
  definition have the same count-record key, whatever their options and publication
  contexts; keys built from different definition strings differ.
\<close>

theorem count_key_of_definition_alone:
  assumes "publish stringify c this searchDefinition options = Inr s"
    and "publish stringify c this' searchDefinition options' = Inr s'"
  shows "(\<exists>n. hd (sent s) =
            Added (collection_name c)
              (js_add (Str ''searchCount'') (stringify searchDefinition)) [(''count'', Num n)])
       \<and> (\<exists>n'. hd (sent s') =
            Added (collection_name c)
              (js_add (Str ''searchCount'') (stringify searchDefinition)) [(''count'', Num n')])
       \<and> (\<forall>a b. a \<noteq> b \<longrightarrow>
            js_add (Str ''searchCount'') (Str a) \<noteq> js_add (Str ''searchCount'') (Str b))"
  using publish_sent [OF assms(1)] publish_sent [OF assms(2)]
  by (simp add: js_add_Str_inject)

theorem count_key_of_definition_alone_witness:
  "publish JSON_stringify (example_collection True) example_scope (Str ''a'') example_options
     = Inr (example_session True)
   \<and> publish JSON_stringify (example_collection True) example_scope (Str ''a'')
       example_options_red = Inr (example_session_red True)
   \<and> (\<exists>n. hd (sent (example_session True)) =
          Added ''players/easySearch'' (Str (''searchCount'' @ quote ''a'')) [(''count'', Num n)])
   \<and> (\<exists>n. hd (sent (example_session_red True)) =
          Added ''players/easySearch'' (Str (''searchCount'' @ quote ''a'')) [(''count'', Num n)])"
proof -
  have h1: "publish JSON_stringify (example_collection True) example_scope (Str ''a'')
              example_options = Inr (example_session True)"
    by (rule example_publish)
  have h2: "publish JSON_stringify (example_collection True) example_scope (Str ''a'')
              example_options_red = Inr (example_session_red True)"
    by (rule example_publish_red)
  from count_key_of_definition_alone [OF h1 h2]
  have "(\<exists>n. hd (sent (example_session True)) =
          Added ''players/easySearch'' (Str (''searchCount'' @ quote ''a'')) [(''count'', Num n)])
   \<and> (\<exists>n. hd (sent (example_session_red True)) =
          Added ''players/easySearch'' (Str (''searchCount'' @ quote ''a'')) [(''count'', Num n)])"
    by (simp add: example_collection_def js_add_def)
  with h1 h2 show ?thesis by simp
qed

text \<open>
  C5 as stated fails: the two example searches for \<open>a\<close> have different options strings
  and the same count-record key.
\<close>

theorem count_key_shared_across_options:
  "publish JSON_stringify (example_collection True) example_scope (Str ''a'') example_options
     = Inr (example_session True)
   \<and> publish JSON_stringify (example_collection True) example_scope (Str ''a'')
       example_options_red = Inr (example_session_red True)
   \<and> optionsString (example_session True) = Str ''{}''
   \<and> optionsString (example_session_red True)
       = Str (''{'' @ quote ''team'' @ '':'' @ quote ''red'' @ ''}'')
   \<and> optionsString (example_session True) \<noteq> optionsString (example_session_red True)
   \<and> hd (sent (example_session True))
       = Added ''players/easySearch'' (Str (''searchCount'' @ quote ''a'')) [(''count'', Num 2)]
   \<and> hd (sent (example_session_red True))
       = Added ''players/easySearch'' (Str (''searchCount'' @ quote ''a'')) [(''count'', Num 2)]"
proof -
  have o1: "optionsString (example_session True) = Str ''{}''"
    by (simp add: example_session_eq)
  have o2: "optionsString (example_session_red True)
      = Str (''{'' @ quote ''team'' @ '':'' @ quote ''red'' @ ''}'')"
    unfolding example_session_red_def
    using set_up_closure [of example_cursor "example_collection True" example_scope
        "Str (quote ''a'')" "Str (''{'' @ quote ''team'' @ '':'' @ quote ''red'' @ ''}'')"]
    by simp
  have m1: "hd (sent (example_session True)) =
      Added ''players/easySearch'' (Str (''searchCount'' @ quote ''a'')) [(''count'', Num 2)]"
    by (simp add: example_sent)
  have m2: "hd (sent (example_session_red True)) =
      Added ''players/easySearch'' (Str (''searchCount'' @ quote ''a'')) [(''count'', Num 2)]"
    unfolding example_session_red_def
    by (simp add: set_up_sent example_collection_def example_cursor_def js_add_def)
  have "optionsString (example_session True) \<noteq> optionsString (example_session_red True)"
    unfolding o1 o2 by (simp add: quote_def)
  with o1 o2 m1 m2 example_publish [of True] example_publish_red [of True]
  show ?thesis by blast
qed

section \<open>The aggregation refresh\<close>

text \<open>
  C6. The aggregation refresh computes nothing: it sends the object that \<open>cursor._aggs\<close>
  referred to when the handler ran. In the example the engine has since put a new
  aggregation object (address 1, three teams become four) in \<open>cursor._aggs\<close>; the
  interval fires and the only effect is a \<open>changed\<close> message with the old aggregations.
\<close>

theorem aggs_refresh_sends_subscribe_time_object:
  "publish JSON_stringify (example_collection True) example_scope (Str ''a'') example_options
     = Inr (example_session True)
   \<and> map_of (timers (example_session True)) 1 = Some AggsRefresh
   \<and> aggs_ref example_cursor_later = Some 1
   \<and> objects example_cursor_later 1 = Obj [(''teams'', Num 4)]
   \<and> effects (fire 1 example_cursor_later (example_session True))
       = effects (example_session True)
         @ [Sent (Changed ''players/easySearch'' (Str (''aggs'' @ quote ''a''))
                    [(''aggs'', Obj [(''teams'', Num 3)])])]"
proof -
  have t: "map_of (timers (example_session True)) 1 = Some AggsRefresh"
    by (simp add: example_session_eq)
  have "fire 1 example_cursor_later (example_session True)
          = aggs_refresh example_cursor_later (example_session True)"
    by (simp only: fire_def t option.case timer_callback.case)
  then have "effects (fire 1 example_cursor_later (example_session True))
       = effects (example_session True)
         @ [Sent (Changed ''players/easySearch'' (Str (''aggs'' @ quote ''a''))
                    [(''aggs'', Obj [(''teams'', Num 3)])])]"
    by (simp add: aggs_refresh_eq)
       (simp add: example_session_eq example_cursor_later_def example_cursor_def
          example_collection_def js_add_def)
  moreover have "aggs_ref example_cursor_later = Some 1"
    "objects example_cursor_later 1 = Obj [(''teams'', Num 4)]"
    by (simp_all add: example_cursor_later_def example_cursor_def)
  ultimately show ?thesis using t example_publish [of True] by simp
qed

section \<open>Permission\<close>

text \<open>
  C7. When the arguments pass the handler's two checks and \<open>permission(options)\<close> returns
  false, the handler throws the not-allowed error with no effect before it: no message is
  sent, \<open>engine.checkSearchParam\<close> and \<open>engine.search\<close> are not called, no interval and no
  observer is started.
\<close>

theorem permission_denied:
  assumes "match_String_or_Object searchDefinition"
    and "match_Object options"
    and "\<not> permission (indexConfiguration c) (handler_options this options)"
  shows "publish stringify c this searchDefinition options = Inl (Not_Allowed, [])"
  using assms by (simp add: publish_def Let_def)

theorem permission_denied_witness:
  "match_String_or_Object (Str ''a'') \<and> match_Object example_options
   \<and> \<not> permission (indexConfiguration (example_collection True))
         (handler_options [(''userId'', Null)] example_options)
   \<and> publish JSON_stringify (example_collection True) [(''userId'', Null)] (Str ''a'')
         example_options = Inl (Not_Allowed, [])"
proof -
  have h1: "match_String_or_Object (Str ''a'')" by simp
  have h2: "match_Object example_options" by (simp add: example_options_def)
  have h3: "\<not> permission (indexConfiguration (example_collection True))
                 (handler_options [(''userId'', Null)] example_options)"
    by (simp add: example_defs handler_options_def get_field_simps)
  from h1 h2 h3 permission_denied [OF h1 h2 h3, of JSON_stringify] show ?thesis by simp
qed

section \<open>Stopping the observer\<close>

text \<open>
  C8 (as the code has it). The handler registers two stop callbacks and each of them
  calls \<open>resultsHandle.stop()\<close>. Over the whole life of a subscription whose handler has
  returned, whatever intervals fire and whatever the observer reports, \<open>stop()\<close> of the
  handle has been called twice once the subscription has stopped and not at all before;
  the observer delivers until the stop and never after; a further stop calls nothing.
\<close>

theorem handle_stopped_by_both_callbacks:
  assumes "publish stringify c this searchDefinition options = Inr s"
  shows "count_list (effects (run es s)) HandleStop
           = (if Stop \<in> set es then 2 else 0)
       \<and> observing (run es s) = (Stop \<notin> set es)"
proof -
  let ?cur = "search (engine c) searchDefinition (handler_options this options)
                (indexConfiguration c)"
  let ?defStr = "stringify searchDefinition"
  let ?optStr = "stringify (get_field (fields_of options) ''props'')"
  have s: "s = set_up ?cur (new_session c this ?defStr ?optStr)"
    using assms by (rule publish_Inr)
  have running: "\<not> deactivated s \<and> resultsHandle s \<and> observing s
       \<and> stopCallbacks s = [ClearTimersAndObserver, StopObserver]"
    unfolding s by (rule set_up_running)
  have "HandleStop \<notin> set (effects s)"
    using set_up_effects [of ?cur c this ?defStr ?optStr] by (simp add: s)
  then have none: "count_list (effects s) HandleStop = (if False then 2 else 0)"
    by (simp add: count_list_0_iff)
  from running have "resultsHandle s"
    and "stopCallbacks s = [ClearTimersAndObserver, StopObserver]"
    and "deactivated s = False" and "observing s = (\<not> False)"
    by simp_all
  from run_running [OF this none, of es] show ?thesis by simp
qed

theorem handle_stopped_by_both_callbacks_witness:
  "publish JSON_stringify (example_collection True) example_scope (Str ''a'') example_options
     = Inr (example_session True)
   \<and> count_list (effects (run [Fires 0 example_cursor, Stop, Stop] (example_session True)))
        HandleStop = 2
   \<and> \<not> observing (run [Fires 0 example_cursor, Stop, Stop] (example_session True))"
proof -
  have h: "publish JSON_stringify (example_collection True) example_scope (Str ''a'')
             example_options = Inr (example_session True)"
    by (rule example_publish)
  from handle_stopped_by_both_callbacks [OF h, of "[Fires 0 example_cursor, Stop, Stop]"]
  show ?thesis by (simp add: h)
qed

text \<open>
  C8 as stated fails: one stop of the example subscription calls \<open>stop()\<close> of the handle
  twice.
\<close>

theorem handle_stop_called_twice:
  "publish JSON_stringify (example_collection True) example_scope (Str ''a'') example_options
     = Inr (example_session True)
   \<and> count_list (effects (example_session True)) HandleStop = 0
   \<and> count_list (effects (stop (example_session True))) HandleStop = 2"
  by (simp add: example_publish example_stop) (simp add: example_session_eq)

section \<open>The client's find\<close>

text \<open>
  C9. On the client \<open>find\<close> returns a cursor. Its documents are the documents of the
  mirror that carry the definition and the options of the search, in the order of their
  positions, each passed through the transform. When the mirror has a count record for
  the search definition and its count is a number, the cursor is reactive and has that
  count; when there is no count record the cursor is not reactive and its count is 0 (as
  it is for a record whose count is not a number, which the publication never sends).
\<close>

theorem find_documents_result:
  "\<exists>r ds. find_documents stringify True c collection searchDefinition options = Inr r
     \<and> documents r = map (client_transform (engine c)) ds
     \<and> mset ds = mset (filter (selected stringify searchDefinition options) collection)
     \<and> sorted (map sortPosition ds)
     \<and> (case find (\<lambda>d. get_field d ''_id''
                          = js_add (Str ''searchCount'') (stringify searchDefinition))
               collection of
          None \<Rightarrow> \<not> reactive r \<and> count_value r = Num 0
        | Some countDoc \<Rightarrow>
            (if isNumber (get_field countDoc ''count'')
             then reactive r \<and> count_value r = get_field countDoc ''count''
             else \<not> reactive r \<and> count_value r = Num 0))"
proof -
  let ?ds = "sort_key sortPosition (filter (selected stringify searchDefinition options) collection)"
  let ?count = "getCount stringify collection searchDefinition"
  let ?r = "\<lparr> documents = map (client_transform (engine c)) ?ds,
             count_value = (if isNumber ?count then ?count else Num 0),
             reactive = isNumber ?count, publishHandle = isNumber ?count \<rparr>"
  have "find_documents stringify True c collection searchDefinition options = Inr ?r"
    by (simp add: find_documents_def Let_def getMongoCursor_def)
  moreover have "mset ?ds = mset (filter (selected stringify searchDefinition options) collection)"
    by simp
  moreover have "sorted (map sortPosition ?ds)"
    by (rule sorted_sort_key)
  moreover have "(case find (\<lambda>d. get_field d ''_id''
                          = js_add (Str ''searchCount'') (stringify searchDefinition))
               collection of
          None \<Rightarrow> \<not> reactive ?r \<and> count_value ?r = Num 0
        | Some countDoc \<Rightarrow>
            (if isNumber (get_field countDoc ''count'')
             then reactive ?r \<and> count_value ?r = get_field countDoc ''count''
             else \<not> reactive ?r \<and> count_value ?r = Num 0))"
    by (simp add: getCount_def split: option.split)
  ultimately show ?thesis by (intro exI [of _ ?r] exI [of _ ?ds]) simp
qed

theorem find_documents_result_witness:
  "\<exists>r. find_documents JSON_stringify True (example_collection True) example_mirror (Str ''a'')
          (fields_of example_options) = Inr r
      \<and> reactive r \<and> count_value r = Num 2
      \<and> documents r =
           [[(''_id'', Str (''A'' @ quote ''a'' @ ''{}'')), (''score'', Num 9),
             (''__originalId'', Str ''A'')],
            [(''_id'', Str (''B'' @ quote ''a'' @ ''{}'')), (''score'', Num 7),
             (''__originalId'', Str ''B'')]]"
proof -
  have c: "find (\<lambda>d. get_field d ''_id'' = js_add (Str ''searchCount'') (Str (quote ''a'')))
             example_mirror
           = Some [(''_id'', Str (''searchCount'' @ quote ''a'')), (''count'', Num 2)]"
    by (simp add: example_mirror_def get_field_simps js_add_def quote_def)
  from find_documents_result [of JSON_stringify "example_collection True" example_mirror
      "Str ''a''" "fields_of example_options"]
  obtain r where r: "find_documents JSON_stringify True (example_collection True) example_mirror
        (Str ''a'') (fields_of example_options) = Inr r"
    and "reactive r \<and> count_value r = Num 2"
    by (auto simp add: c get_field_simps)
  moreover from r have "documents r =
           [[(''_id'', Str (''A'' @ quote ''a'' @ ''{}'')), (''score'', Num 9),
             (''__originalId'', Str ''A'')],
            [(''_id'', Str (''B'' @ quote ''a'' @ ''{}'')), (''score'', Num 7),
             (''__originalId'', Str ''B'')]]"
    by (auto simp add: example_find)
  ultimately show ?thesis by blast
qed

section \<open>The counting strategy\<close>

text \<open>
  C10. The count refresh reads \<open>mongoCount\<close> from the publication context. When the
  context has no such property, then for every search collection (whatever its own
  \<open>mongoCount\<close>), at every moment of the subscription's life, the callback calls
  \<open>cursor.count()\<close> and sends its value; \<open>cursor.mongoCursor.count()\<close> is never called.
\<close>

theorem count_refresh_uses_cursor_count:
  assumes "publish stringify c this searchDefinition options = Inr s"
    and "map_of this ''mongoCount'' = None"
  shows "effects (count_refresh cur (run es s)) =
           effects (run es s)
           @ CursorCount
           # (if deactivated (run es s) then []
              else [Sent (Changed (collection_name c)
                       (js_add (Str ''searchCount'') (stringify searchDefinition))
                       [(''count'', Num (cursor_count cur))])])
       \<and> MongoCursorCount \<notin> set (effects (run es s))"
proof -
  let ?cur = "search (engine c) searchDefinition (handler_options this options)
                (indexConfiguration c)"
  let ?defStr = "stringify searchDefinition"
  let ?optStr = "stringify (get_field (fields_of options) ''props'')"
  have s: "s = set_up ?cur (new_session c this ?defStr ?optStr)"
    using assms(1) by (rule publish_Inr)
  have closure: "collectionScope s = c \<and> scope s = this \<and> definitionString s = ?defStr
       \<and> optionsString s = ?optStr \<and> aggs s = aggs_ref ?cur \<and> intervalAggsID s = None"
    unfolding s by (rule set_up_closure)
  have flag: "\<not> truthy (get_field (scope s) ''mongoCount'')"
    using closure assms(2) by (simp add: get_field_def)
  have "MongoCursorCount \<notin> set (effects s)"
    using set_up_effects [of ?cur c this ?defStr ?optStr] by (simp add: s)
  with flag have no_call: "MongoCursorCount \<notin> set (effects (run es s))"
    by (rule run_no_mongoCursor_count)
  have later: "scope (run es s) = this" "collectionScope (run es s) = c"
    "definitionString (run es s) = ?defStr"
    using run_closure [of es s] closure by simp_all
  have "\<not> truthy (get_field (scope (run es s)) ''mongoCount'')"
    using flag closure later by simp
  then have "effects (count_refresh cur (run es s)) =
           effects (run es s)
           @ CursorCount
           # (if deactivated (run es s) then []
              else [Sent (Changed (collection_name c) (js_add (Str ''searchCount'') ?defStr)
                       [(''count'', Num (cursor_count cur))])])"
    by (subst count_refresh_eq) (simp add: later)
  with no_call show ?thesis by simp
qed

theorem count_refresh_uses_cursor_count_witness:
  "publish JSON_stringify (example_collection True) example_scope (Str ''a'') example_options
     = Inr (example_session True)
   \<and> map_of example_scope ''mongoCount'' = None
   \<and> mongoCount (example_collection True)
   \<and> mongoCursor_count example_cursor = 5
   \<and> effects (count_refresh example_cursor (run [] (example_session True))) =
       effects (run [] (example_session True))
       @ [CursorCount,
          Sent (Changed ''players/easySearch'' (Str (''searchCount'' @ quote ''a''))
                  [(''count'', Num 2)])]
   \<and> MongoCursorCount \<notin> set (effects (run [] (example_session True)))"
proof -
  have h1: "publish JSON_stringify (example_collection True) example_scope (Str ''a'')
             example_options = Inr (example_session True)"
    by (rule example_publish)
  have h2: "map_of example_scope ''mongoCount'' = None"
    by (simp add: example_scope_def)
  have d: "\<not> deactivated (run [] (example_session True))"
    by (simp add: run_def example_session_eq)
  from count_refresh_uses_cursor_count [OF h1 h2, of example_cursor "[]"] d
  have "effects (count_refresh example_cursor (run [] (example_session True))) =
       effects (run [] (example_session True))
       @ [CursorCount,
          Sent (Changed ''players/easySearch'' (Str (''searchCount'' @ quote ''a''))
                  [(''count'', Num 2)])]
   \<and> MongoCursorCount \<notin> set (effects (run [] (example_session True)))"
    by (simp add: example_collection_def example_cursor_def js_add_def)
  moreover have "mongoCount (example_collection True)"
    "mongoCursor_count example_cursor = 5"
    by (simp_all add: example_collection_def example_cursor_def)
  ultimately show ?thesis using h1 h2 by simp
qed

end
